theory Spec2Isabelle
  imports Complex_Main
begin

unbundle bit_operations_syntax

section \<open>Python values, exceptions and the session\<close>

text \<open>
  The exceptions the interface can raise. \<open>RuntimeError\<close> carries its message,
  since the source raises it with two different ones. \<open>StructError\<close> is
  \<open>struct.error\<close>.
\<close>

datatype pyerr =
    RuntimeError string
  | TypeError
  | ValueError
  | KeyError
  | IndexError
  | AttributeError
  | OverflowError
  | StructError

text \<open>
  The Python values that reach the interface as arguments or leave it as results.
  A \<open>bytes\<close> object is the list of its items, each an \<open>int\<close>.
\<close>

datatype pyval =
    PyNone
  | PyInt int
  | PyFloat real
  | PyBytes "int list"
  | PyList "pyval list"

text \<open>
  What one call of \<open>self.serial.read_until()\<close> does: it returns the bytes that
  arrived before the timeout (none, perhaps), or raises \<open>serial.SerialException\<close>.
\<close>

datatype rx_event = Chunk "int list" | SerialException

text \<open>
  An \<open>ARMH7Interface\<close> object together with the serial port it holds.
  \<open>serial_opened\<close> is \<open>self.serial is not None\<close>; \<open>tx\<close> lists the arguments of
  the calls of \<open>self.serial.write\<close> so far, oldest first; \<open>rx\<close> is what the coming
  calls of \<open>self.serial.read_until\<close> yield, in order. Once \<open>rx\<close> is used up the port
  stays silent: every further read times out with zero bytes.
  A \<open>SerialException\<close> of \<open>write\<close> is caught and printed by \<open>serial_write\<close> and
  changes nothing in the control flow, so \<open>tx\<close> records the calls, not their fate.
  Printing is not modelled.
\<close>

record session =
  serial_opened :: bool
  tx :: "int list list"
  rx :: "rx_event list"
  servo_sorted_ids :: "int list option"
  worm_sorted_ids :: "int list option"
  wheel_servo_sorted_ids :: "int list option"

text \<open>
  A method of the interface: from the session before the call to \<open>None\<close> when the
  call never returns, and otherwise to the exception raised (\<open>Inl\<close>) or the value
  returned (\<open>Inr\<close>), with the session after the call.
\<close>

type_synonym 'a prog = "session \<Rightarrow> ((pyerr + 'a) \<times> session) option"

definition ret :: "'a \<Rightarrow> 'a prog" where
  "ret x = (\<lambda>s. Some (Inr x, s))"

definition throw :: "pyerr \<Rightarrow> 'a prog" where
  "throw e = (\<lambda>s. Some (Inl e, s))"

definition bnd :: "'a prog \<Rightarrow> ('a \<Rightarrow> 'b prog) \<Rightarrow> 'b prog" where
  "bnd m f = (\<lambda>s. case m s of
      None \<Rightarrow> None
    | Some (Inl e, s') \<Rightarrow> Some (Inl e, s')
    | Some (Inr x, s') \<Rightarrow> f x s')"

text \<open>A pure step that may raise, run inside a method.\<close>

definition lift :: "pyerr + 'a \<Rightarrow> 'a prog" where
  "lift r = (case r of Inl e \<Rightarrow> throw e | Inr x \<Rightarrow> ret x)"

section \<open>Transport: \<open>serial_read\<close> and \<open>serial_write\<close>\<close>

text \<open>
  The first loop of \<open>serial_read\<close>:
  \<^verbatim>\<open>while len(ret) == 0: ret = self.serial.read_until()\<close>
  with \<open>return None\<close> on a \<open>SerialException\<close>. The result is the first non-empty read
  (\<open>PyNone\<close> after an exception) and the reads still to come; \<open>None\<close> when the port
  stays silent for ever.
\<close>

fun read_first :: "rx_event list \<Rightarrow> (pyval \<times> rx_event list) option" where
  "read_first [] = None"
| "read_first (SerialException # evs) = Some (PyNone, evs)"
| "read_first (Chunk c # evs) =
     (if length c = 0 then read_first evs else Some (PyBytes c, evs))"

text \<open>
  The second loop and the final slice:
  \<^verbatim>\<open>while len(ret) > 0 and ret[0] != len(ret): ret += self.serial.read_until()\<close>
  \<^verbatim>\<open>return ret[1:len(ret) - 1]\<close>
\<close>

definition frame_pending :: "int list \<Rightarrow> bool" where
  "frame_pending r = (length r > 0 \<and> hd r \<noteq> int (length r))"

definition strip_frame :: "int list \<Rightarrow> int list" where
  "strip_frame r = drop 1 (take (length r - 1) r)"

fun read_rest :: "int list \<Rightarrow> rx_event list \<Rightarrow> (pyval \<times> rx_event list) option" where
  "read_rest r [] = (if frame_pending r then None else Some (PyBytes (strip_frame r), []))"
| "read_rest r (ev # evs) =
     (if frame_pending r then
        (case ev of
           SerialException \<Rightarrow> Some (PyNone, evs)
         | Chunk c \<Rightarrow> read_rest (r @ c) evs)
      else Some (PyBytes (strip_frame r), ev # evs))"

definition serial_read :: "pyval prog" where
  "serial_read = (\<lambda>s.
     if \<not> serial_opened s then Some (Inl (RuntimeError ''Serial is not opened.''), s)
     else (case read_first (rx s) of
        None \<Rightarrow> None
      | Some (PyBytes r, evs) \<Rightarrow>
          (case read_rest r evs of
             None \<Rightarrow> None
           | Some (v, evs') \<Rightarrow> Some (Inr v, s\<lparr>rx := evs'\<rparr>))
      | Some (v, evs) \<Rightarrow> Some (Inr v, s\<lparr>rx := evs\<rparr>)))"

text \<open>
  \<open>bytes(byte_list)\<close> raises \<open>ValueError\<close> unless every item is in \<open>range(256)\<close>.
\<close>

definition is_byte :: "int \<Rightarrow> bool" where
  "is_byte b = (0 \<le> b \<and> b < 256)"

definition serial_write :: "int list \<Rightarrow> pyval prog" where
  "serial_write byte_list = (\<lambda>s.
     if \<not> serial_opened s then Some (Inl (RuntimeError ''Serial is not opened.''), s)
     else if \<not> list_all is_byte byte_list then Some (Inl ValueError, s)
     else serial_read (s\<lparr>tx := tx s @ [byte_list]\<rparr>))"


section \<open>The firmware image, the struct schemas and the helpers of other modules\<close>

text \<open>
  A \<open>cstruct\<close> class of \<open>rcb4.struct_header\<close> (\<open>ServoStruct\<close>, \<open>WormmoduleStruct\<close>,
  ...): its \<open>__name__\<close>, its \<open>size\<close>, its \<open>__fields_types__\<close> (for each field the
  \<open>c_type\<close>, a string, and the \<open>offset\<close>) and its constructor \<open>cls(buf)\<close>, which
  parses a buffer into an object with one attribute per field. The classes are
  declared outside this file, so they are parameters.
\<close>

record field_type =
  c_type :: string
  offset :: int

record cstruct =
  struct_name :: string
  struct_size :: int
  fields_types :: "string \<Rightarrow> field_type option"
  construct :: "pyval \<Rightarrow> pyerr + (string \<Rightarrow> pyval option)"

text \<open>
  What the module imports and does not define: the symbol table read from the ELF image
  (\<open>armh7_elf_alist\<close>), \<open>c_vector\<close> (records per struct name), \<open>c_type_to_size\<close>,
  \<open>rcb4_checksum\<close>, \<open>max_sensor_num\<close>, the two struct classes the claims use, the
  helpers of the servo command, and \<open>struct.pack('f', v)\<close>, whose IEEE encoding is
  left open. \<open>numpy_wraps\<close> tells the NumPy at hand: before 2.0 an out-of-range
  Python int stored into a \<open>uint8\<close> array wraps modulo 256, from 2.0 on the store
  raises \<open>OverflowError\<close>.
\<close>

record env =
  armh7_elf_alist :: "string \<Rightarrow> int option"
  c_vector :: "string \<Rightarrow> nat option"
  c_type_to_size :: "string \<Rightarrow> pyerr + nat"
  rcb4_checksum :: "int list \<Rightarrow> int"
  max_sensor_num :: int
  ServoStruct :: cstruct
  WormmoduleStruct :: cstruct
  MultiServoSingleVelocity :: int
  rcb4_servo_ids_to_5bytes :: "pyval list \<Rightarrow> pyerr + int list"
  rcb4_velocity :: "int \<Rightarrow> pyerr + int"
  rcb4_servo_positions :: "pyval list \<Rightarrow> int list \<Rightarrow> pyerr + int list"
  struct_pack_f :: "pyval \<Rightarrow> pyerr + int list"
  numpy_wraps :: bool

text \<open>\<open>d[k]\<close> on a dict: \<open>KeyError\<close> when the key is absent.\<close>

definition getitem :: "('k \<Rightarrow> 'v option) \<Rightarrow> 'k \<Rightarrow> pyerr + 'v" where
  "getitem d k = (case d k of None \<Rightarrow> Inl KeyError | Some v \<Rightarrow> Inr v)"

text \<open>\<open>obj.name\<close> on an object built by a struct class.\<close>

definition getattr :: "(string \<Rightarrow> pyval option) \<Rightarrow> string \<Rightarrow> pyerr + pyval" where
  "getattr obj name = (case obj name of None \<Rightarrow> Inl AttributeError | Some v \<Rightarrow> Inr v)"

text \<open>\<open>v > 0\<close> and \<open>v == 1\<close> on a Python value.\<close>

fun py_gt0 :: "pyval \<Rightarrow> pyerr + bool" where
  "py_gt0 (PyInt i) = Inr (i > 0)"
| "py_gt0 (PyFloat r) = Inr (r > 0)"
| "py_gt0 _ = Inl TypeError"

fun py_eq1 :: "pyval \<Rightarrow> bool" where
  "py_eq1 (PyInt i) = (i = 1)"
| "py_eq1 (PyFloat r) = (r = 1)"
| "py_eq1 _ = False"

text \<open>\<open>len(v)\<close>.\<close>

fun py_len :: "pyval \<Rightarrow> pyerr + nat" where
  "py_len (PyList xs) = Inr (length xs)"
| "py_len (PyBytes bs) = Inr (length bs)"
| "py_len _ = Inl TypeError"

text \<open>
  \<open>x.to_bytes(4, byteorder='little')\<close>: \<open>OverflowError\<close> for a negative \<open>x\<close> and for
  one that does not fit four bytes.
\<close>

definition le_bytes :: "nat \<Rightarrow> int \<Rightarrow> int list" where
  "le_bytes n x = map (\<lambda>i. drop_bit (i * 8) x AND 0xFF) [0..<n]"

definition to_bytes4 :: "int \<Rightarrow> pyerr + int list" where
  "to_bytes4 x = (if x < 0 \<or> 2 ^ 32 \<le> x then Inl OverflowError else Inr (le_bytes 4 x))"

text \<open>
  \<open>struct.pack('H', v)\<close> and \<open>struct.pack('B', v)\<close>, read back as a tuple of bytes
  (\<open>struct.unpack('BB', ...)\<close>, \<open>struct.unpack('B', ...)\<close>): \<open>struct.error\<close> unless \<open>v\<close>
  is an integer in range. The byte order is the host's, taken to be little-endian.
\<close>

fun struct_pack_H :: "pyval \<Rightarrow> pyerr + int list" where
  "struct_pack_H (PyInt i) = (if 0 \<le> i \<and> i < 2 ^ 16 then Inr (le_bytes 2 i) else Inl StructError)"
| "struct_pack_H _ = Inl StructError"

fun struct_pack_B :: "pyval \<Rightarrow> pyerr + int list" where
  "struct_pack_B (PyInt i) = (if 0 \<le> i \<and> i < 2 ^ 8 then Inr [i] else Inl StructError)"
| "struct_pack_B _ = Inl StructError"

section \<open>Raw memory access\<close>

text \<open>
  \<open>memory_read_aux\<close>: the frame is a Python list, so nothing is checked when an item
  is stored; \<open>rcb4_checksum\<close> sees the list with its last item still \<open>0\<close>.
\<close>

definition memory_read_aux_frame :: "env \<Rightarrow> int \<Rightarrow> int \<Rightarrow> int list" where
  "memory_read_aux_frame e addr len =
     (let cnt = 1; e_size = len; skip_size = 0; n = 11;
          byte_list = [n, 0xFB,
                       addr AND 0xFF, drop_bit 8 addr AND 0xFF,
                       drop_bit 16 addr AND 0xFF, drop_bit 24 addr AND 0xFF,
                       cnt, e_size, skip_size AND 0xFF, drop_bit 8 skip_size AND 0xFF, 0]
      in byte_list[10 := rcb4_checksum e byte_list])"

definition memory_read_aux :: "env \<Rightarrow> int \<Rightarrow> int \<Rightarrow> pyval prog" where
  "memory_read_aux e addr len = serial_write (memory_read_aux_frame e addr len)"

text \<open>
  The \<open>+\<close> of \<open>memory_read\<close>. Its operands are results of \<open>serial_read\<close>: \<open>bytes\<close>, or
  \<open>None\<close> after a \<open>SerialException\<close>, and \<open>None + x\<close> is a \<open>TypeError\<close>.
\<close>

fun bytes_add :: "pyval \<Rightarrow> pyval \<Rightarrow> pyerr + pyval" where
  "bytes_add (PyBytes a) (PyBytes b) = Inr (PyBytes (a @ b))"
| "bytes_add _ _ = Inl TypeError"

definition memory_read :: "env \<Rightarrow> int \<Rightarrow> int \<Rightarrow> pyval prog" where
  "memory_read e addr len =
     (let limit = 250 in
      if len < limit then memory_read_aux e addr len
      else if len < 2 * limit then
        bnd (memory_read_aux e addr limit) (\<lambda>a.
        bnd (memory_read_aux e (addr + limit) (len - limit)) (\<lambda>b.
        lift (bytes_add a b)))
      else
        bnd (memory_read_aux e addr limit) (\<lambda>a.
        bnd (memory_read_aux e (addr + limit) limit) (\<lambda>b.
        bnd (lift (bytes_add a b)) (\<lambda>ab.
        bnd (memory_read_aux e (addr + 2 * limit) (len - 2 * limit)) (\<lambda>c.
        lift (bytes_add ab c))))))"

text \<open>\<open>memory_cstruct(cls, v_idx)\<close>, with \<open>addr\<close> and \<open>size\<close> left at their defaults.\<close>

definition memory_cstruct :: "env \<Rightarrow> cstruct \<Rightarrow> int \<Rightarrow> (string \<Rightarrow> pyval option) prog" where
  "memory_cstruct e cls v_idx =
     bnd (lift (getitem (armh7_elf_alist e) (struct_name cls))) (\<lambda>addr.
     let size = struct_size cls in
     bnd (memory_read e (size * v_idx + addr) size) (\<lambda>buf.
     lift (construct cls buf)))"

text \<open>
  \<open>memory_write\<close>: the frame is a \<open>bytearray\<close>, so storing an item outside
  \<open>range(256)\<close> raises \<open>ValueError\<close>. The loop copies \<open>data[i]\<close> for \<open>i < length\<close>;
  \<open>data[i]\<close> raises \<open>IndexError\<close> past the end of \<open>data\<close>. \<open>length\<close> is a size and
  so a \<open>nat\<close>.
\<close>

fun copy_data :: "nat \<Rightarrow> int list \<Rightarrow> pyerr + int list" where
  "copy_data 0 data = Inr []"
| "copy_data (Suc n) [] = Inl IndexError"
| "copy_data (Suc n) (d # ds) =
     (if is_byte d then
        (case copy_data n ds of Inl err \<Rightarrow> Inl err | Inr r \<Rightarrow> Inr (d # r))
      else Inl ValueError)"

definition memory_write_frame :: "env \<Rightarrow> int \<Rightarrow> nat \<Rightarrow> int list \<Rightarrow> pyerr + int list" where
  "memory_write_frame e addr len data =
     (let cnt = 1; e_size = int len; skip_size = 0; n = int len + 11 in
      if \<not> is_byte n then Inl ValueError
      else case to_bytes4 addr of Inl err \<Rightarrow> Inl err | Inr addr_bytes \<Rightarrow>
        (case copy_data len data of Inl err \<Rightarrow> Inl err | Inr payload \<Rightarrow>
          (let byte_list = [n, 0xFC] @ addr_bytes @ [cnt, e_size] @ le_bytes 2 skip_size
                             @ payload @ [0];
               checksum = rcb4_checksum e (take (nat (n - 1)) byte_list)
           in if is_byte checksum then Inr (byte_list[10 + len := checksum])
              else Inl ValueError)))"

definition memory_write :: "env \<Rightarrow> int \<Rightarrow> nat \<Rightarrow> int list \<Rightarrow> pyval prog" where
  "memory_write e addr len data =
     bnd (lift (memory_write_frame e addr len data)) serial_write"


section \<open>Register access by struct and field\<close>

text \<open>
  \<open>write_cls_alist(cls, idx, slot_name, vec)\<close>. \<open>vec[0]\<close> is taken when \<open>vec\<close> is a
  list. The field's \<open>c_type\<close> selects the packing; \<open>data[0:len(byte_data)] =
  byte_data\<close> overwrites the head of the zeroed \<open>bytearray(slot_size)\<close>.
\<close>

fun first_of_list :: "pyval \<Rightarrow> pyerr + pyval" where
  "first_of_list (PyList []) = Inl IndexError"
| "first_of_list (PyList (v # vs)) = Inr v"
| "first_of_list vec = Inr vec"

definition not_implemented :: "string \<Rightarrow> pyerr" where
  "not_implemented c = RuntimeError (''not implemented typ '' @ c)"

definition pack_slot :: "env \<Rightarrow> string \<Rightarrow> pyval \<Rightarrow> pyerr + int list" where
  "pack_slot e c v =
     (if c = ''float'' then struct_pack_f e v
      else if c = ''uint16'' then struct_pack_H v
      else if c = ''uint8'' then struct_pack_B v
      else Inl (not_implemented c))"

definition slice_assign0 :: "nat \<Rightarrow> int list \<Rightarrow> int list" where
  "slice_assign0 slot_size byte_data = byte_data @ drop (length byte_data) (replicate slot_size 0)"

definition field_addr :: "int \<Rightarrow> cstruct \<Rightarrow> int \<Rightarrow> field_type \<Rightarrow> int" where
  "field_addr baseaddr cls idx ft = baseaddr + (idx * struct_size cls) + offset ft"

definition write_cls_alist :: "env \<Rightarrow> cstruct \<Rightarrow> int \<Rightarrow> string \<Rightarrow> pyval \<Rightarrow> pyval prog" where
  "write_cls_alist e cls idx slot_name vec =
     bnd (lift (getitem (armh7_elf_alist e) (struct_name cls))) (\<lambda>baseaddr.
     bnd (lift (getitem (fields_types cls) slot_name)) (\<lambda>ft.
     bnd (lift (c_type_to_size e (c_type ft))) (\<lambda>slot_size.
     bnd (lift (first_of_list vec)) (\<lambda>v.
     bnd (lift (pack_slot e (c_type ft) v)) (\<lambda>byte_data.
     memory_write e (field_addr baseaddr cls idx ft) slot_size
       (slice_assign0 slot_size byte_data))))))"

text \<open>
  \<open>set_cstruct_slot(cls, idx, slot_name, v)\<close>: as above, but \<open>v\<close> is never a list and
  a \<open>uint8\<close> is stored as \<open>[v]\<close>, which the slice assignment into the \<open>bytearray\<close>
  checks.
\<close>

fun bytearray_item :: "pyval \<Rightarrow> pyerr + int list" where
  "bytearray_item (PyInt i) = (if is_byte i then Inr [i] else Inl ValueError)"
| "bytearray_item _ = Inl TypeError"

definition pack_slot_set :: "env \<Rightarrow> string \<Rightarrow> pyval \<Rightarrow> pyerr + int list" where
  "pack_slot_set e c v =
     (if c = ''float'' then struct_pack_f e v
      else if c = ''uint16'' then struct_pack_H v
      else if c = ''uint8'' then bytearray_item v
      else Inl (not_implemented c))"

definition set_cstruct_slot :: "env \<Rightarrow> cstruct \<Rightarrow> int \<Rightarrow> string \<Rightarrow> pyval \<Rightarrow> pyval prog" where
  "set_cstruct_slot e cls idx slot_name v =
     bnd (lift (getitem (armh7_elf_alist e) (struct_name cls))) (\<lambda>baseaddr.
     bnd (lift (getitem (fields_types cls) slot_name)) (\<lambda>ft.
     bnd (lift (c_type_to_size e (c_type ft))) (\<lambda>slot_size.
     bnd (lift (pack_slot_set e (c_type ft) v)) (\<lambda>byte_data.
     memory_write e (field_addr baseaddr cls idx ft) slot_size
       (slice_assign0 slot_size byte_data)))))"

text \<open>
  \<open>read_cstruct_slot_v(cls, slot_name)\<close>. The frame is \<open>np.zeros(11, dtype=np.uint8)\<close>:
  the address bytes are masked, the other items are stored as they are. Only item 8
  receives \<open>cls_size\<close>; item 9 keeps its \<open>0\<close>. The answer is read with
  \<open>np.frombuffer(b, dtype=np.uint16)\<close> whatever the field's type is: \<open>ValueError\<close>
  for an odd number of bytes, and an error for \<open>None\<close> (a \<open>TypeError\<close> in today's
  NumPy).
\<close>

definition np_uint8 :: "env \<Rightarrow> int \<Rightarrow> pyerr + int" where
  "np_uint8 e x =
     (if is_byte x then Inr x
      else if numpy_wraps e then Inr (x mod 256)
      else Inl OverflowError)"

definition read_cstruct_slot_v_frame :: "env \<Rightarrow> cstruct \<Rightarrow> string \<Rightarrow> pyerr + int list" where
  "read_cstruct_slot_v_frame e cls slot_name =
     (case getitem (c_vector e) (struct_name cls) of Inl err \<Rightarrow> Inl err | Inr vcnt \<Rightarrow>
      case getitem (armh7_elf_alist e) (struct_name cls) of Inl err \<Rightarrow> Inl err | Inr addr \<Rightarrow>
      case getitem (fields_types cls) slot_name of Inl err \<Rightarrow> Inl err | Inr ft \<Rightarrow>
      case c_type_to_size e (c_type ft) of Inl err \<Rightarrow> Inl err | Inr element_size \<Rightarrow>
      case np_uint8 e (int vcnt) of Inl err \<Rightarrow> Inl err | Inr b6 \<Rightarrow>
      case np_uint8 e (int element_size) of Inl err \<Rightarrow> Inl err | Inr b7 \<Rightarrow>
      case np_uint8 e (struct_size cls) of Inl err \<Rightarrow> Inl err | Inr b8 \<Rightarrow>
        (let n = 11;
             byte_list = [n, 0xFB] @ le_bytes 4 (addr + offset ft) @ [b6, b7, b8, 0, 0]
         in case np_uint8 e (rcb4_checksum e byte_list) of Inl err \<Rightarrow> Inl err
            | Inr checksum \<Rightarrow> Inr (byte_list[10 := checksum])))"

fun uint16_items :: "int list \<Rightarrow> int list" where
  "uint16_items (lo # hi # bs) = (lo + 256 * hi) # uint16_items bs"
| "uint16_items _ = []"

fun frombuffer_uint16 :: "pyval \<Rightarrow> pyerr + int list" where
  "frombuffer_uint16 (PyBytes bs) =
     (if odd (length bs) then Inl ValueError else Inr (uint16_items bs))"
| "frombuffer_uint16 _ = Inl TypeError"

definition read_cstruct_slot_v :: "env \<Rightarrow> cstruct \<Rightarrow> string \<Rightarrow> (int list) prog" where
  "read_cstruct_slot_v e cls slot_name =
     bnd (lift (read_cstruct_slot_v_frame e cls slot_name)) (\<lambda>byte_list.
     bnd (serial_write byte_list) (\<lambda>b.
     lift (frombuffer_uint16 b)))"

text \<open>
  \<open>cfunc_call(func_string, *args)\<close>: \<open>args\<close> is the tuple of the positional
  arguments. \<open>len(*args)\<close> is a \<open>TypeError\<close> unless the tuple has one item, and then it
  is that item's length. In the loop \<open>args[i]\<close> indexes the tuple; \<open>to_bytes\<close> exists on
  an \<open>int\<close> only, and its \<open>bytes\<close> result cannot be stored as one item of a
  \<open>bytearray\<close> (\<open>TypeError\<close>). So an iteration never completes.
\<close>

definition cfunc_arg :: "pyval list \<Rightarrow> nat \<Rightarrow> pyerr" where
  "cfunc_arg args i =
     (if i < length args then
        (case args ! i of
           PyInt x \<Rightarrow> (case to_bytes4 x of Inl err \<Rightarrow> err | Inr bs \<Rightarrow> TypeError)
         | _ \<Rightarrow> AttributeError)
      else IndexError)"

definition cfunc_call_frame :: "env \<Rightarrow> string \<Rightarrow> pyval list \<Rightarrow> pyerr + int list" where
  "cfunc_call_frame e func_string args =
     (case getitem (armh7_elf_alist e) func_string of Inl err \<Rightarrow> Inl err | Inr addr \<Rightarrow>
      case (case args of [a] \<Rightarrow> py_len a | _ \<Rightarrow> Inl TypeError) of Inl err \<Rightarrow> Inl err
      | Inr argc \<Rightarrow>
        (let n = 8 + 4 * int argc in
         if \<not> is_byte n then Inl ValueError
         else case to_bytes4 addr of Inl err \<Rightarrow> Inl err | Inr addr_bytes \<Rightarrow>
           if 0 < argc then Inl (cfunc_arg args 0)
           else (let byte_list = [n, 0xfa] @ addr_bytes @ [int argc, 0];
                     checksum = rcb4_checksum e (take (nat (n - 1)) byte_list)
                 in if is_byte checksum then Inr (byte_list[nat (n - 1) := checksum])
                    else Inl ValueError)))"

definition cfunc_call :: "env \<Rightarrow> string \<Rightarrow> pyval list \<Rightarrow> pyval prog" where
  "cfunc_call e func_string args =
     bnd (lift (cfunc_call_frame e func_string args)) serial_write"

text \<open>
  \<open>slot_vector_from_str\<close> and \<open>write_cstruct_slot_v\<close>. In both, \<open>esize\<close> is the
  field's \<open>c_type\<close>, a string, so the offset \<open>10 + i * esize\<close> (\<open>offset + i * esize\<close>)
  of the first iteration is an \<open>int\<close> plus a string: a \<open>TypeError\<close>, unless an earlier
  step of that iteration has raised already (\<open>vec[i]\<close>, \<open>len(v)\<close>, \<open>round(v)\<close>).
  Only an empty vector of records gets past the loops.
\<close>

definition slot_vector_from_str :: "env \<Rightarrow> pyval \<Rightarrow> cstruct \<Rightarrow> string \<Rightarrow> pyerr + pyval" where
  "slot_vector_from_str e byte_str cls slot_name =
     (case getitem (c_vector e) (struct_name cls) of Inl err \<Rightarrow> Inl err | Inr len \<Rightarrow>
      case getitem (fields_types cls) slot_name of Inl err \<Rightarrow> Inl err | Inr ft \<Rightarrow>
      case c_type_to_size e (c_type ft) of Inl err \<Rightarrow> Inl err | Inr tsize \<Rightarrow>
        if 0 < len then Inl TypeError else Inr (PyList []))"

fun py_item :: "pyval \<Rightarrow> nat \<Rightarrow> pyerr + pyval" where
  "py_item (PyList xs) i = (if i < length xs then Inr (xs ! i) else Inl IndexError)"
| "py_item (PyBytes bs) i = (if i < length bs then Inr (PyInt (bs ! i)) else Inl IndexError)"
| "py_item _ i = Inl TypeError"

fun is_number :: "pyval \<Rightarrow> bool" where
  "is_number (PyInt i) = True"
| "is_number (PyFloat r) = True"
| "is_number _ = False"

definition write_slot_item :: "pyval \<Rightarrow> nat \<Rightarrow> pyerr" where
  "write_slot_item vec i =
     (case py_item vec i of Inl err \<Rightarrow> err | Inr v \<Rightarrow>
      case (if is_number v then Inr v
            else case py_len v of Inl err \<Rightarrow> Inl err
                 | Inr l \<Rightarrow> if l > 1 then py_item v 0 else Inr v) of Inl err \<Rightarrow> err
      | Inr v' \<Rightarrow> TypeError)"

definition write_cstruct_slot_v_frame ::
    "env \<Rightarrow> nat \<Rightarrow> int \<Rightarrow> cstruct \<Rightarrow> field_type \<Rightarrow> nat \<Rightarrow> pyval \<Rightarrow> pyerr + int list" where
  "write_cstruct_slot_v_frame e vcnt addr cls ft tsize vec =
     (let n = 11 + int tsize * int vcnt; skip_size = struct_size cls in
      if addr + offset ft < 0 \<or> 2 ^ 32 \<le> addr + offset ft then Inl StructError
      else if \<not> is_byte (int vcnt) then Inl ValueError
      else if \<not> is_byte (int tsize) then Inl ValueError
      else if skip_size < 0 \<or> 2 ^ 16 \<le> skip_size then Inl StructError
      else if 0 < vcnt then Inl (write_slot_item vec 0)
      else (let byte_list = [n, 0xFC] @ le_bytes 4 (addr + offset ft) @ [int vcnt, int tsize]
                              @ le_bytes 2 skip_size @ replicate (tsize * vcnt) 0 @ [0];
                checksum = rcb4_checksum e byte_list
            in if is_byte checksum then Inr (byte_list[nat (n - 1) := checksum])
               else Inl ValueError))"

definition write_cstruct_slot_v :: "env \<Rightarrow> cstruct \<Rightarrow> string \<Rightarrow> pyval \<Rightarrow> pyval prog" where
  "write_cstruct_slot_v e cls slot_name vec =
     bnd (lift (getitem (c_vector e) (struct_name cls))) (\<lambda>vcnt.
     bnd (lift (getitem (armh7_elf_alist e) (struct_name cls))) (\<lambda>addr.
     bnd (lift (getitem (fields_types cls) slot_name)) (\<lambda>ft.
     bnd (lift (c_type_to_size e (c_type ft))) (\<lambda>tsize.
     let n = 11 + int tsize * int vcnt in
     if n > 240 then ret PyNone
     else
       bnd (lift (write_cstruct_slot_v_frame e vcnt addr cls ft tsize vec)) (\<lambda>byte_list.
       bnd (serial_write byte_list) (\<lambda>s.
       lift (slot_vector_from_str e s cls slot_name)))))))"


section \<open>Domain operations\<close>

text \<open>
  \<open>servo_angle_vector(servo_ids, servo_vector, velocity)\<close>: the command's body is
  built by helpers of \<open>rcb4.asm\<close>, then the length is put in front and the checksum
  behind.
\<close>

definition servo_angle_vector :: "env \<Rightarrow> pyval list \<Rightarrow> int list \<Rightarrow> int \<Rightarrow> pyval prog" where
  "servo_angle_vector e servo_ids servo_vector velocity =
     bnd (lift (rcb4_servo_ids_to_5bytes e servo_ids)) (\<lambda>ids5.
     bnd (lift (rcb4_velocity e velocity)) (\<lambda>vel.
     bnd (lift (rcb4_servo_positions e servo_ids servo_vector)) (\<lambda>positions.
     let byte_list = [MultiServoSingleVelocity e] @ ids5 @ [vel] @ positions;
         byte_list = (2 + int (length byte_list)) # byte_list;
         byte_list = byte_list @ [rcb4_checksum e byte_list]
     in serial_write byte_list)))"

text \<open>
  The loop of \<open>search_wheel_sids\<close>, with \<open>indices\<close> as accumulator: the two \<open>if\<close>
  statements stand side by side in the loop's body.
\<close>

fun wheel_scan :: "env \<Rightarrow> int list \<Rightarrow> int list \<Rightarrow> (int list) prog" where
  "wheel_scan e [] indices = ret indices"
| "wheel_scan e (idx # idxs) indices =
     bnd (memory_cstruct e (ServoStruct e) idx) (\<lambda>servo.
     bnd (lift (getattr servo ''rotation'')) (\<lambda>rotation.
     bnd (lift (py_gt0 rotation)) (\<lambda>is_wheel.
     let indices = (if is_wheel then indices @ [idx] else indices) in
     bnd (lift (getattr servo ''feedback'')) (\<lambda>feedback.
     bnd (lift (py_gt0 feedback)) (\<lambda>has_feedback.
     bnd (if has_feedback
          then set_cstruct_slot e (ServoStruct e) idx ''feedback'' (PyInt 0)
          else ret PyNone) (\<lambda>_.
     wheel_scan e idxs indices))))))"

definition search_wheel_sids :: "env \<Rightarrow> (int list) prog" where
  "search_wheel_sids e = (\<lambda>s.
     case servo_sorted_ids s of
       None \<Rightarrow> Some (Inl TypeError, s)
     | Some ids \<Rightarrow>
         bnd (wheel_scan e ids []) (\<lambda>indices s'.
           Some (Inr indices, s'\<lparr>wheel_servo_sorted_ids := Some (sort indices)\<rparr>)) s)"

fun worm_scan :: "env \<Rightarrow> int list \<Rightarrow> int list \<Rightarrow> (int list) prog" where
  "worm_scan e [] indices = ret indices"
| "worm_scan e (idx # idxs) indices =
     bnd (memory_cstruct e (WormmoduleStruct e) idx) (\<lambda>worm.
     bnd (lift (getattr worm ''module_type'')) (\<lambda>module_type.
     worm_scan e idxs (if py_eq1 module_type then indices @ [idx] else indices)))"

definition search_worm_ids :: "env \<Rightarrow> (int list) prog" where
  "search_worm_ids e =
     bnd (worm_scan e (map int [0..<nat (max_sensor_num e)]) []) (\<lambda>indices s.
       Some (Inr indices, s\<lparr>worm_sorted_ids := Some indices\<rparr>))"

text \<open>
  \<open>read_worm_angle(idx)\<close>: both range checks only print, so they leave no trace
  here; the scan runs when \<open>worm_sorted_ids\<close> is still \<open>None\<close>.
\<close>

definition read_worm_angle :: "env \<Rightarrow> int \<Rightarrow> pyval prog" where
  "read_worm_angle e idx =
     bnd (\<lambda>s. case worm_sorted_ids s of
            None \<Rightarrow> bnd (search_worm_ids e) (\<lambda>ids s'.
                      Some (Inr (), s'\<lparr>worm_sorted_ids := Some ids\<rparr>)) s
          | Some ids \<Rightarrow> Some (Inr (), s)) (\<lambda>_.
     bnd (memory_cstruct e (WormmoduleStruct e) idx) (\<lambda>worm.
     lift (getattr worm ''present_angle'')))"

text \<open>
  \<open>send_worm_angle_and_threshold\<close> and \<open>send_worm_calib_data\<close> return \<open>None\<close> (here
  the \<open>None\<close> of \<open>option\<close>) after printing, when the index is out of range, and the
  record read back otherwise.
\<close>

definition send_worm_angle_and_threshold ::
    "env \<Rightarrow> int \<Rightarrow> pyval \<Rightarrow> pyval \<Rightarrow> pyval \<Rightarrow> int \<Rightarrow> (string \<Rightarrow> pyval option) option prog" where
  "send_worm_angle_and_threshold e worm_idx angle threshold threshold_scale sign =
     (let angle_lst = PyList [angle]; th_lst = PyList [threshold];
          th_scale_lst = PyList [threshold_scale] in
      if \<not> (0 \<le> worm_idx \<and> worm_idx < max_sensor_num e) then ret None
      else
        bnd (memory_cstruct e (WormmoduleStruct e) worm_idx) (\<lambda>worm.
        bnd (write_cls_alist e (WormmoduleStruct e) worm_idx ''ref_angle'' angle_lst) (\<lambda>_.
        bnd (write_cls_alist e (WormmoduleStruct e) worm_idx ''thleshold'' th_lst) (\<lambda>_.
        bnd (write_cls_alist e (WormmoduleStruct e) worm_idx ''thleshold_scale'' th_scale_lst) (\<lambda>_.
        bnd (lift (getattr worm ''servo_id'')) (\<lambda>servo_id.
        bnd (servo_angle_vector e [servo_id] [sign * 135 * 30 + 7500] 10) (\<lambda>_.
        bnd (memory_cstruct e (WormmoduleStruct e) worm_idx) (\<lambda>worm.
        ret (Some worm)))))))))"

definition write_if_set :: "env \<Rightarrow> int \<Rightarrow> string \<Rightarrow> pyval option \<Rightarrow> pyval prog" where
  "write_if_set e worm_idx slot_name arg =
     (case arg of
        None \<Rightarrow> ret PyNone
      | Some v \<Rightarrow> write_cls_alist e (WormmoduleStruct e) worm_idx slot_name (PyList [v]))"

definition send_worm_calib_data ::
    "env \<Rightarrow> int \<Rightarrow> pyval option \<Rightarrow> pyval option \<Rightarrow> pyval option \<Rightarrow> int option \<Rightarrow>
     pyval option \<Rightarrow> pyval option \<Rightarrow> pyval option \<Rightarrow> pyval option \<Rightarrow>
     (string \<Rightarrow> pyval option) option prog" where
  "send_worm_calib_data e worm_idx servo_idx sensor_idx module_type magenc_offset
       upper_limit thleshold_scale timeout_time_scale gear_ratio =
     (if \<not> (0 \<le> worm_idx \<and> worm_idx < max_sensor_num e) then ret None
      else
        bnd (write_if_set e worm_idx ''module_type'' module_type) (\<lambda>_.
        bnd (write_if_set e worm_idx ''servo_id'' servo_idx) (\<lambda>_.
        bnd (write_if_set e worm_idx ''sensor_id'' sensor_idx) (\<lambda>_.
        bnd (write_cls_alist e (WormmoduleStruct e) worm_idx ''move_state'' (PyList [PyInt 0])) (\<lambda>_.
        bnd (write_if_set e worm_idx ''magenc_init''
               (map_option (\<lambda>m. PyInt (m mod (2 ^ 14))) magenc_offset)) (\<lambda>_.
        bnd (write_if_set e worm_idx ''linear_upper_limit'' upper_limit) (\<lambda>_.
        bnd (write_if_set e worm_idx ''thleshold_scale'' thleshold_scale) (\<lambda>_.
        bnd (write_if_set e worm_idx ''timeout_time_scale'' timeout_time_scale) (\<lambda>_.
        bnd (write_if_set e worm_idx ''gear_ratio'' gear_ratio) (\<lambda>_.
        bnd (memory_cstruct e (WormmoduleStruct e) worm_idx) (\<lambda>worm.
        ret (Some worm))))))))))))"


section \<open>Notions used to state the properties\<close>

text \<open>
  The bytes a run of reads has delivered, and the test that they form a whole frame:
  the first byte is the number of bytes.
\<close>

fun ev_bytes :: "rx_event \<Rightarrow> int list" where
  "ev_bytes (Chunk c) = c"
| "ev_bytes SerialException = []"

definition received :: "rx_event list \<Rightarrow> int list" where
  "received evs = concat (map ev_bytes evs)"

definition frame_complete :: "int list \<Rightarrow> bool" where
  "frame_complete r = (r \<noteq> [] \<and> hd r = int (length r))"

text \<open>
  The two loops of \<open>serial_read\<close> seen as one, started with the bytes \<open>r\<close> in hand:
  used in the proofs only.
\<close>

definition reassemble :: "int list \<Rightarrow> rx_event list \<Rightarrow> (pyval \<times> rx_event list) option" where
  "reassemble r evs =
     (if r = [] then
        (case read_first evs of
           None \<Rightarrow> None
         | Some (PyBytes r', evs') \<Rightarrow> read_rest r' evs'
         | Some (v, evs') \<Rightarrow> Some (v, evs'))
      else read_rest r evs)"

text \<open>The session after one more call of \<open>self.serial.write\<close>.\<close>

definition sent :: "session \<Rightarrow> int list \<Rightarrow> session" where
  "sent s byte_list = s\<lparr>tx := tx s @ [byte_list]\<rparr>"

text \<open>
  The next response on the port: the payload of the frame that the coming reads
  complete, and the reads left after it. \<open>None\<close> when a read raises first or the
  frame never completes.
\<close>

definition next_frame :: "rx_event list \<Rightarrow> (int list \<times> rx_event list) option" where
  "next_frame evs =
     (case reassemble [] evs of
        Some (PyBytes p, evs') \<Rightarrow> Some (p, evs')
      | _ \<Rightarrow> None)"

text \<open>
  The vector write frame in the spec's words: \<open>[len, 0xFC, addr(4 LE), count(1),
  element_size(1), stride(2 LE)]\<close>, then the payload, then the checksum of all the
  bytes before it; \<open>len\<close> is the frame's total length.
\<close>

definition vector_write_frame :: "env \<Rightarrow> int \<Rightarrow> int \<Rightarrow> int \<Rightarrow> int \<Rightarrow> int list \<Rightarrow> int list" where
  "vector_write_frame e addr count element_size stride payload =
     (let body = [11 + int (length payload), 0xFC] @ le_bytes 4 addr @ [count, element_size]
                   @ le_bytes 2 stride @ payload
      in body @ [rcb4_checksum e body])"

text \<open>
  The frame of a single-field write: a vector write of one element at the field's
  absolute address, with the packed value cut to the field's size. A read request is
  a frame of eleven bytes with opcode \<open>0xFB\<close>.
\<close>

definition field_write_frame :: "env \<Rightarrow> cstruct \<Rightarrow> int \<Rightarrow> int \<Rightarrow> field_type \<Rightarrow> nat \<Rightarrow> int list \<Rightarrow> int list" where
  "field_write_frame e cls idx baseaddr ft slot_size byte_data =
     vector_write_frame e (baseaddr + (idx * struct_size cls) + offset ft) 1 (int slot_size) 0
       (take slot_size (slice_assign0 slot_size byte_data))"

definition is_read_request :: "int list \<Rightarrow> bool" where
  "is_read_request f = (length f = 11 \<and> f ! 1 = 0xFB)"

text \<open>
  A flag of a record read from the device counts as set when the code's test
  \<open>flag > 0\<close> holds. \<open>servo_flags\<close> runs the two tests of one loop step of
  \<open>search_wheel_sids\<close>, in the code's order. \<open>wheel_scan_log\<close> is the scan as it
  shows on the wire, with a ghost variable: for each index it reads the record, tests
  the flags, and when the feedback flag is set it sends the frame \<open>clear idx\<close> and
  waits for the answer; \<open>seen\<close> collects, in order, each index scanned with the
  record that was read for it, and is kept whichever way the scan ends.
\<close>

definition flag_set :: "(string \<Rightarrow> pyval option) \<Rightarrow> string \<Rightarrow> bool" where
  "flag_set obj name = (case obj name of None \<Rightarrow> False | Some v \<Rightarrow> py_gt0 v = Inr True)"

definition servo_flags :: "(string \<Rightarrow> pyval option) \<Rightarrow> pyerr + (bool \<times> bool)" where
  "servo_flags servo =
     (case getattr servo ''rotation'' of Inl err \<Rightarrow> Inl err | Inr rotation \<Rightarrow>
      case py_gt0 rotation of Inl err \<Rightarrow> Inl err | Inr is_wheel \<Rightarrow>
      case getattr servo ''feedback'' of Inl err \<Rightarrow> Inl err | Inr feedback \<Rightarrow>
      case py_gt0 feedback of Inl err \<Rightarrow> Inl err | Inr has_feedback \<Rightarrow>
        Inr (is_wheel, has_feedback))"

fun wheel_scan_log :: "env \<Rightarrow> (int \<Rightarrow> int list) \<Rightarrow> int list \<Rightarrow> int list
    \<Rightarrow> (int \<times> (string \<Rightarrow> pyval option)) list \<Rightarrow> session
    \<Rightarrow> (((pyerr + int list) \<times> (int \<times> (string \<Rightarrow> pyval option)) list) \<times> session) option" where
  "wheel_scan_log e clear [] indices seen s = Some ((Inr indices, seen), s)"
| "wheel_scan_log e clear (idx # idxs) indices seen s =
     (case memory_cstruct e (ServoStruct e) idx s of
        None \<Rightarrow> None
      | Some (Inl err, s1) \<Rightarrow> Some ((Inl err, seen), s1)
      | Some (Inr servo, s1) \<Rightarrow>
          (case servo_flags servo of
             Inl err \<Rightarrow> Some ((Inl err, seen @ [(idx, servo)]), s1)
           | Inr (is_wheel, has_feedback) \<Rightarrow>
               (case (if has_feedback then serial_read (sent s1 (clear idx))
                      else Some (Inr PyNone, s1)) of
                  None \<Rightarrow> None
                | Some (Inl err, s2) \<Rightarrow> Some ((Inl err, seen @ [(idx, servo)]), s2)
                | Some (Inr answer, s2) \<Rightarrow>
                    wheel_scan_log e clear idxs
                      (if is_wheel then indices @ [idx] else indices)
                      (seen @ [(idx, servo)]) s2)))"

section \<open>Example sessions and environments\<close>

definition closed_session :: session where
  "closed_session = \<lparr>serial_opened = False, tx = [], rx = [Chunk [3, 0, 3]],
     servo_sorted_ids = None, worm_sorted_ids = None, wheel_servo_sorted_ids = None\<rparr>"

text \<open>
  A port that delivers the frame \<open>[4, 1, 2, 9]\<close> in two pieces, with empty reads in
  between, and then one more byte.
\<close>

definition pieces_session :: session where
  "pieces_session = \<lparr>serial_opened = True, tx = [],
     rx = [Chunk [], Chunk [4, 1], Chunk [], Chunk [2, 9], Chunk [7]],
     servo_sorted_ids = None, worm_sorted_ids = None, wheel_servo_sorted_ids = None\<rparr>"

text \<open>
  An environment to run the methods on: the checksum is the sum of the bytes modulo
  256, the two structs are small stand-ins with the field names the code uses, and
  \<open>struct.pack('f', 5.0)\<close> is \<open>00 00 A0 40\<close>. \<open>open_session\<close> is an open port
  with a given future and nothing sent yet.
\<close>

definition demo_checksum :: "int list \<Rightarrow> int" where
  "demo_checksum bs = sum_list bs mod 256"

definition demo_size :: "string \<Rightarrow> pyerr + nat" where
  "demo_size c =
     (if c = ''uint8'' then Inr 1
      else if c = ''uint16'' then Inr 2
      else if c = ''int16'' then Inr 2
      else if c = ''float'' then Inr 4
      else if c = ''double'' then Inr 8
      else Inl (not_implemented c))"

definition demo_servo :: cstruct where
  "demo_servo = \<lparr>struct_name = ''ServoStruct'', struct_size = 16,
     fields_types = [''rotation'' \<mapsto> \<lparr>c_type = ''uint8'', offset = 0\<rparr>,
                     ''feedback'' \<mapsto> \<lparr>c_type = ''uint8'', offset = 1\<rparr>,
                     ''ref_angle'' \<mapsto> \<lparr>c_type = ''uint16'', offset = 2\<rparr>,
                     ''error_angle'' \<mapsto> \<lparr>c_type = ''double'', offset = 8\<rparr>],
     construct = (\<lambda>buf. case buf of
         PyBytes bs \<Rightarrow>
           if length bs < 16 then Inl StructError
           else Inr [''rotation'' \<mapsto> PyInt (bs ! 0), ''feedback'' \<mapsto> PyInt (bs ! 1),
                     ''ref_angle'' \<mapsto> PyInt (bs ! 2 + 256 * bs ! 3)]
       | _ \<Rightarrow> Inl TypeError)\<rparr>"

definition demo_worm :: cstruct where
  "demo_worm = \<lparr>struct_name = ''WormmoduleStruct'', struct_size = 12,
     fields_types = [''module_type'' \<mapsto> \<lparr>c_type = ''uint8'', offset = 0\<rparr>,
                     ''servo_id'' \<mapsto> \<lparr>c_type = ''uint8'', offset = 1\<rparr>,
                     ''sensor_id'' \<mapsto> \<lparr>c_type = ''uint8'', offset = 2\<rparr>,
                     ''move_state'' \<mapsto> \<lparr>c_type = ''uint8'', offset = 3\<rparr>,
                     ''magenc_init'' \<mapsto> \<lparr>c_type = ''uint16'', offset = 4\<rparr>,
                     ''magenc_present'' \<mapsto> \<lparr>c_type = ''int16'', offset = 6\<rparr>,
                     ''thleshold_scale'' \<mapsto> \<lparr>c_type = ''float'', offset = 8\<rparr>],
     construct = (\<lambda>buf. case buf of
         PyBytes bs \<Rightarrow>
           if length bs < 12 then Inl StructError
           else Inr [''module_type'' \<mapsto> PyInt (bs ! 0), ''servo_id'' \<mapsto> PyInt (bs ! 1),
                     ''sensor_id'' \<mapsto> PyInt (bs ! 2), ''move_state'' \<mapsto> PyInt (bs ! 3),
                     ''magenc_init'' \<mapsto> PyInt (bs ! 4 + 256 * bs ! 5)]
       | _ \<Rightarrow> Inl TypeError)\<rparr>"

definition demo_env :: env where
  "demo_env = \<lparr>
     armh7_elf_alist = [''ServoStruct'' \<mapsto> 0x24000100, ''WormmoduleStruct'' \<mapsto> 0x24000400,
                        ''buzzer_init_sound'' \<mapsto> 0x08001234,
                        ''servo_idmode_scan_single'' \<mapsto> 0x08002000],
     c_vector = [''ServoStruct'' \<mapsto> 36, ''WormmoduleStruct'' \<mapsto> 20],
     c_type_to_size = demo_size,
     rcb4_checksum = demo_checksum,
     max_sensor_num = 20,
     ServoStruct = demo_servo,
     WormmoduleStruct = demo_worm,
     MultiServoSingleVelocity = 0x10,
     rcb4_servo_ids_to_5bytes = (\<lambda>ids. Inr [0, 0, 0, 0, 0]),
     rcb4_velocity = (\<lambda>v. Inr v),
     rcb4_servo_positions = (\<lambda>ids vs. Inr []),
     struct_pack_f = (\<lambda>v. if v = PyFloat 5 then Inr [0, 0, 0xA0, 0x40] else Inl StructError),
     numpy_wraps = True\<rparr>"

definition open_session :: "rx_event list \<Rightarrow> session" where
  "open_session evs = \<lparr>serial_opened = True, tx = [], rx = evs,
     servo_sorted_ids = None, worm_sorted_ids = None, wheel_servo_sorted_ids = None\<rparr>"

text \<open>
  A port that answers two writes and then the read of the third worm-module record.
\<close>

definition calib_session :: session where
  "calib_session = open_session
     [Chunk [4, 0xFC, 6, 6], Chunk [4, 0xFC, 6, 6],
      Chunk [14, 1, 5, 7, 0, 32, 14, 0, 0, 0, 0, 0xA0, 0x40, 9]]"

text \<open>A schema whose records are 300 bytes long.\<close>

definition big_struct :: cstruct where
  "big_struct = demo_servo\<lparr>struct_size := 300\<rparr>"

text \<open>
  Two servo scans. In \<open>wheel_session\<close> servo 0 has its rotation flag set and servo 1
  its feedback flag; \<open>wheel_session_after\<close> is the session the scan leaves. In
  \<open>plain_servo_session\<close> the only servo is servo 1.
\<close>

definition wheel_session :: session where
  "wheel_session = open_session
     [Chunk [18, 1, 0, 0x4C, 0x1D, 0, 0, 0, 0, 0, 0, 0, 0, 0, 0, 0, 0, 9],
      Chunk [18, 0, 1, 0x4C, 0x1D, 0, 0, 0, 0, 0, 0, 0, 0, 0, 0, 0, 0, 9],
      Chunk [4, 0xFC, 6, 6]] \<lparr>servo_sorted_ids := Some [0, 1]\<rparr>"

definition plain_servo_session :: session where
  "plain_servo_session = open_session
     [Chunk [18, 0, 1, 0x4C, 0x1D, 0, 0, 0, 0, 0, 0, 0, 0, 0, 0, 0, 0, 9],
      Chunk [4, 0xFC, 6, 6]] \<lparr>servo_sorted_ids := Some [1]\<rparr>"

definition wheel_session_after :: session where
  "wheel_session_after =
     open_session [] \<lparr>servo_sorted_ids := Some [0, 1], wheel_servo_sorted_ids := Some [0],
          tx := [[11, 0xFB, 0x00, 0x01, 0x00, 0x24, 1, 16, 0, 0, 60],
                 [11, 0xFB, 0x10, 0x01, 0x00, 0x24, 1, 16, 0, 0, 76],
                 [12, 0xFC, 0x11, 0x01, 0x00, 0x24, 1, 1, 0, 0, 0, 64]]\<rparr>"

text \<open>A port whose second read raises, in the middle of a frame.\<close>

definition broken_session :: session where
  "broken_session = \<lparr>serial_opened = True, tx = [],
     rx = [Chunk [4, 1], SerialException, Chunk [2, 9]],
     servo_sorted_ids = None, worm_sorted_ids = None, wheel_servo_sorted_ids = None\<rparr>"

text \<open>
  A scan that clears the feedback flag of servo 0 and then fails: the read of servo 1
  raises.
\<close>

definition raising_session :: session where
  "raising_session = open_session
     [Chunk [18, 0, 1, 0x4C, 0x1D, 0, 0, 0, 0, 0, 0, 0, 0, 0, 0, 0, 0, 9],
      Chunk [4, 0xFC, 6, 6],
      SerialException] \<lparr>servo_sorted_ids := Some [0, 1]\<rparr>"

definition raising_session_after :: session where
  "raising_session_after =
     open_session [] \<lparr>servo_sorted_ids := Some [0, 1],
          tx := [[11, 0xFB, 0x00, 0x01, 0x00, 0x24, 1, 16, 0, 0, 60],
                 [12, 0xFC, 0x01, 0x01, 0x00, 0x24, 1, 1, 0, 0, 0, 48],
                 [11, 0xFB, 0x10, 0x01, 0x00, 0x24, 1, 16, 0, 0, 76]]\<rparr>"

section \<open>The monad\<close>

lemma bnd_ret [simp]: "bnd (ret x) f = f x"
  by (simp add: bnd_def ret_def)

lemma bnd_throw [simp]: "bnd (throw err) f = throw err"
  by (simp add: bnd_def throw_def fun_eq_iff)

lemma lift_Inr [simp]: "lift (Inr x) = ret x"
  by (simp add: lift_def)

lemma lift_Inl [simp]: "lift (Inl err) = throw err"
  by (simp add: lift_def)

lemma bnd_Some_Inr:
  "bnd m f s = Some (Inr y, s') \<longleftrightarrow> (\<exists>x s1. m s = Some (Inr x, s1) \<and> f x s1 = Some (Inr y, s'))"
  by (auto simp: bnd_def split: option.splits sum.splits prod.splits)

section \<open>Transport\<close>

lemma received_simps [simp]:
  "received [] = []"
  "received (Chunk c # evs) = c @ received evs"
  "received (SerialException # evs) = received evs"
  by (simp_all add: received_def)

lemma frame_pending_iff: "frame_pending r \<longleftrightarrow> r \<noteq> [] \<and> \<not> frame_complete r"
  by (auto simp: frame_pending_def frame_complete_def)

lemma reassemble_Nil:
  "reassemble r [] = (if frame_complete r then Some (PyBytes (strip_frame r), []) else None)"
  by (auto simp: reassemble_def frame_pending_iff frame_complete_def)

lemma reassemble_Cons:
  "reassemble r (ev # evs) =
     (if frame_complete r then Some (PyBytes (strip_frame r), ev # evs)
      else (case ev of
              SerialException \<Rightarrow> Some (PyNone, evs)
            | Chunk c \<Rightarrow> reassemble (r @ c) evs))"
  by (cases ev) (auto simp: reassemble_def frame_pending_iff frame_complete_def)

lemma serial_read_reassemble:
  "serial_opened s \<Longrightarrow>
   serial_read s = (case reassemble [] (rx s) of
      None \<Rightarrow> None
    | Some (v, evs') \<Rightarrow> Some (Inr v, s\<lparr>rx := evs'\<rparr>))"
  by (auto simp: serial_read_def reassemble_def split: option.splits pyval.splits)

lemma reassemble_sound:
  "reassemble r evs = Some (PyBytes p, evs') \<Longrightarrow>
   \<exists>k\<le>length evs. evs' = drop k evs \<and> SerialException \<notin> set (take k evs)
      \<and> frame_complete (r @ received (take k evs))
      \<and> p = strip_frame (r @ received (take k evs))
      \<and> (\<forall>j<k. \<not> frame_complete (r @ received (take j evs)))"
proof (induction evs arbitrary: r)
  case Nil
  then show ?case by (auto simp: reassemble_Nil split: if_splits)
next
  case (Cons ev evs)
  show ?case
  proof (cases "frame_complete r")
    case True
    with Cons.prems show ?thesis by (intro exI[of _ 0]) (auto simp: reassemble_Cons)
  next
    case False
    then obtain c where ev: "ev = Chunk c"
      using Cons.prems by (cases ev) (auto simp: reassemble_Cons)
    with False Cons.prems have "reassemble (r @ c) evs = Some (PyBytes p, evs')"
      by (simp add: reassemble_Cons)
    from Cons.IH[OF this] obtain k where k: "k \<le> length evs" "evs' = drop k evs"
      "SerialException \<notin> set (take k evs)" "frame_complete ((r @ c) @ received (take k evs))"
      "p = strip_frame ((r @ c) @ received (take k evs))"
      "\<forall>j<k. \<not> frame_complete ((r @ c) @ received (take j evs))" by auto
    show ?thesis
    proof (intro exI[of _ "Suc k"] conjI allI impI)
      fix j assume "j < Suc k"
      then show "\<not> frame_complete (r @ received (take j (ev # evs)))"
        using k(6) False ev by (cases j) auto
    qed (use k ev in auto)
  qed
qed

lemma reassemble_complete:
  "k \<le> length evs \<Longrightarrow> SerialException \<notin> set (take k evs) \<Longrightarrow>
   frame_complete (r @ received (take k evs)) \<Longrightarrow>
   (\<forall>j<k. \<not> frame_complete (r @ received (take j evs))) \<Longrightarrow>
   reassemble r evs = Some (PyBytes (strip_frame (r @ received (take k evs))), drop k evs)"
proof (induction k arbitrary: r evs)
  case 0
  then show ?case by (cases evs) (auto simp: reassemble_Nil reassemble_Cons)
next
  case (Suc k)
  then obtain ev evs0 where evs: "evs = ev # evs0" by (cases evs) auto
  from Suc(3) evs obtain c where ev: "ev = Chunk c" by (cases ev) auto
  have p: "\<not> frame_complete r" using Suc(5)[rule_format, of 0] by simp
  have "reassemble (r @ c) evs0 =
      Some (PyBytes (strip_frame ((r @ c) @ received (take k evs0))), drop k evs0)"
  proof (rule Suc.IH)
    show "\<forall>j<k. \<not> frame_complete ((r @ c) @ received (take j evs0))"
    proof (intro allI impI)
      fix j assume "j < k"
      then show "\<not> frame_complete ((r @ c) @ received (take j evs0))"
        using Suc(5)[rule_format, of "Suc j"] evs ev by simp
    qed
  qed (use Suc evs ev in auto)
  then show ?case using p evs ev by (simp add: reassemble_Cons)
qed

text \<open>
  The call has two ways to end on an open port: with bytes, or with \<open>None\<close> after a
  read has raised \<open>SerialException\<close>.
\<close>

lemma reassemble_outcomes:
  "reassemble r evs = Some (v, evs') \<Longrightarrow>
   (\<exists>p. v = PyBytes p) \<or> (v = PyNone \<and> SerialException \<in> set evs)"
proof (induction evs arbitrary: r)
  case Nil
  then show ?case by (auto simp: reassemble_Nil split: if_splits)
next
  case (Cons ev evs)
  then show ?case
    by (cases ev) (auto simp: reassemble_Cons split: if_splits)
qed

lemma serial_read_outcomes:
  assumes "serial_opened s" "serial_read s = Some (r, s')"
  shows "(\<exists>p. r = Inr (PyBytes p)) \<or> (r = Inr PyNone \<and> SerialException \<in> set (rx s))"
  using assms reassemble_outcomes[of "[]" "rx s"]
  by (auto simp: serial_read_reassemble split: option.splits)

lemma strip_frame_butlast_tl: "strip_frame r = butlast (tl r)"
  by (cases r) (simp_all add: strip_frame_def butlast_conv_take drop_Suc take_tl drop_take)

lemma reassemble_sound_none:
  "reassemble r evs = Some (PyNone, evs') \<Longrightarrow>
   \<exists>k\<le>length evs. 0 < k \<and> evs' = drop k evs \<and> evs ! (k - 1) = SerialException
      \<and> SerialException \<notin> set (take (k - 1) evs)
      \<and> (\<forall>j<k. \<not> frame_complete (r @ received (take j evs)))"
proof (induction evs arbitrary: r)
  case Nil
  then show ?case by (auto simp: reassemble_Nil split: if_splits)
next
  case (Cons ev evs)
  have nc: "\<not> frame_complete r" using Cons.prems by (auto simp: reassemble_Cons split: if_splits)
  show ?case
  proof (cases ev)
    case SerialException
    with nc Cons.prems have "evs' = evs" by (simp add: reassemble_Cons)
    with nc SerialException show ?thesis by (intro exI[of _ 1]) auto
  next
    case (Chunk c)
    with nc Cons.prems have "reassemble (r @ c) evs = Some (PyNone, evs')"
      by (simp add: reassemble_Cons)
    from Cons.IH[OF this] obtain k where k: "k \<le> length evs" "0 < k" "evs' = drop k evs"
      "evs ! (k - 1) = SerialException" "SerialException \<notin> set (take (k - 1) evs)"
      "\<forall>j<k. \<not> frame_complete ((r @ c) @ received (take j evs))" by auto
    show ?thesis
    proof (intro exI[of _ "Suc k"] conjI allI impI)
      fix j assume "j < Suc k"
      then show "\<not> frame_complete (r @ received (take j (ev # evs)))"
        using k(6) nc Chunk by (cases j) auto
    next
      show "SerialException \<notin> set (take (Suc k - 1) (ev # evs))"
        using k(2,5) Chunk by (cases k) auto
    qed (use k Chunk in auto)
  qed
qed

lemma reassemble_complete_none:
  "k \<le> length evs \<Longrightarrow> 0 < k \<Longrightarrow> evs ! (k - 1) = SerialException \<Longrightarrow>
   SerialException \<notin> set (take (k - 1) evs) \<Longrightarrow>
   (\<forall>j<k. \<not> frame_complete (r @ received (take j evs))) \<Longrightarrow>
   reassemble r evs = Some (PyNone, drop k evs)"
proof (induction k arbitrary: r evs)
  case 0
  then show ?case by simp
next
  case (Suc k)
  then obtain ev evs0 where evs: "evs = ev # evs0" by (cases evs) auto
  have p: "\<not> frame_complete r" using Suc(6)[rule_format, of 0] by simp
  show ?case
  proof (cases k)
    case 0
    with Suc evs have "ev = SerialException" by simp
    with p evs 0 show ?thesis by (simp add: reassemble_Cons)
  next
    case (Suc k')
    with Suc.prems evs obtain c where ev: "ev = Chunk c" by (cases ev) auto
    have "reassemble (r @ c) evs0 = Some (PyNone, drop k evs0)"
    proof (rule Suc.IH)
      show "\<forall>j<k. \<not> frame_complete ((r @ c) @ received (take j evs0))"
      proof (intro allI impI)
        fix j assume "j < k"
        then show "\<not> frame_complete ((r @ c) @ received (take j evs0))"
          using Suc.prems(5)[rule_format, of "Suc j"] evs ev by simp
      qed
    qed (use Suc Suc.prems evs ev in auto)
    then show ?thesis using p evs ev by (simp add: reassemble_Cons)
  qed
qed


text \<open>
  Claim C3, as amended. On an open port, \<open>serial_read\<close> ends in exactly two ways.
  Let \<open>k\<close> be the number of reads it has consumed; no smaller number of reads had
  delivered bytes whose first byte equals their number (so a read of zero bytes, which
  adds nothing, never ends the call, and neither does a partial frame). Either none of
  the \<open>k\<close> reads raised, the bytes they delivered are not empty and their first byte
  equals their number, and the call returns these bytes without the first one (the
  length) and the last one (the checksum). Or read \<open>k\<close> raised \<open>SerialException\<close>,
  the first to do so, and the call returns \<open>None\<close> at once, whatever has been
  accumulated. The equivalence also says that the call does return in both cases.
\<close>

theorem serial_read_endings:
  assumes "serial_opened s"
  shows "serial_read s = Some (r, s') \<longleftrightarrow>
    (\<exists>k\<le>length (rx s). s' = s\<lparr>rx := drop k (rx s)\<rparr>
       \<and> (\<forall>j<k. \<not> (received (take j (rx s)) \<noteq> []
                   \<and> hd (received (take j (rx s))) = int (length (received (take j (rx s))))))
       \<and> (SerialException \<notin> set (take k (rx s))
            \<and> received (take k (rx s)) \<noteq> []
            \<and> hd (received (take k (rx s))) = int (length (received (take k (rx s))))
            \<and> r = Inr (PyBytes (butlast (tl (received (take k (rx s))))))
          \<or> 0 < k \<and> rx s ! (k - 1) = SerialException
            \<and> SerialException \<notin> set (take (k - 1) (rx s))
            \<and> r = Inr PyNone))"
  (is "?L \<longleftrightarrow> ?R")
proof
  assume L: ?L
  then obtain v evs' where re: "reassemble [] (rx s) = Some (v, evs')"
    and r: "r = Inr v" and s': "s' = s\<lparr>rx := evs'\<rparr>"
    using assms by (auto simp: serial_read_reassemble split: option.splits)
  from reassemble_outcomes[OF re] consider p where "v = PyBytes p" | "v = PyNone" by blast
  then show ?R
  proof cases
    case 1
    from reassemble_sound[OF re[unfolded 1]] r s' 1 show ?thesis
      by (auto simp: frame_complete_def strip_frame_butlast_tl)
  next
    case 2
    from reassemble_sound_none[OF re[unfolded 2]] r s' 2 show ?thesis
      by (auto simp: frame_complete_def)
  qed
next
  assume ?R
  then obtain k where k: "k \<le> length (rx s)" "s' = s\<lparr>rx := drop k (rx s)\<rparr>"
    and nc: "\<forall>j<k. \<not> frame_complete ([] @ received (take j (rx s)))"
    and d: "(SerialException \<notin> set (take k (rx s))
            \<and> frame_complete ([] @ received (take k (rx s)))
            \<and> r = Inr (PyBytes (strip_frame ([] @ received (take k (rx s))))))
          \<or> (0 < k \<and> rx s ! (k - 1) = SerialException
            \<and> SerialException \<notin> set (take (k - 1) (rx s))
            \<and> r = Inr PyNone)"
    by (auto simp: frame_complete_def strip_frame_butlast_tl)
  from d show ?L
  proof
    assume a: "SerialException \<notin> set (take k (rx s))
            \<and> frame_complete ([] @ received (take k (rx s)))
            \<and> r = Inr (PyBytes (strip_frame ([] @ received (take k (rx s)))))"
    from reassemble_complete[OF k(1) _ _ nc] a k(2) assms show ?L
      by (simp add: serial_read_reassemble)
  next
    assume a: "0 < k \<and> rx s ! (k - 1) = SerialException
            \<and> SerialException \<notin> set (take (k - 1) (rx s))
            \<and> r = Inr PyNone"
    from reassemble_complete_none[OF k(1) _ _ _ nc] a k(2) assms show ?L
      by (simp add: serial_read_reassemble)
  qed
qed

theorem serial_read_endings_witness:
  "serial_opened pieces_session
   \<and> serial_read pieces_session = Some (Inr (PyBytes [1, 2]), pieces_session\<lparr>rx := [Chunk [7]]\<rparr>)
   \<and> serial_opened broken_session
   \<and> serial_read broken_session = Some (Inr PyNone, broken_session\<lparr>rx := [Chunk [2, 9]]\<rparr>)"
proof -
  have o: "serial_opened pieces_session" by (simp add: pieces_session_def)
  have b: "serial_opened broken_session" by (simp add: broken_session_def)
  have "\<exists>k\<le>length (rx pieces_session).
       pieces_session\<lparr>rx := [Chunk [7]]\<rparr> = pieces_session\<lparr>rx := drop k (rx pieces_session)\<rparr>
       \<and> (\<forall>j<k. \<not> (received (take j (rx pieces_session)) \<noteq> []
                   \<and> hd (received (take j (rx pieces_session)))
                      = int (length (received (take j (rx pieces_session))))))
       \<and> (SerialException \<notin> set (take k (rx pieces_session))
            \<and> received (take k (rx pieces_session)) \<noteq> []
            \<and> hd (received (take k (rx pieces_session)))
                = int (length (received (take k (rx pieces_session))))
            \<and> Inr (PyBytes [1, 2]) = (Inr (PyBytes (butlast (tl (received (take k (rx pieces_session)))))) :: pyerr + pyval)
          \<or> 0 < k \<and> rx pieces_session ! (k - 1) = SerialException
            \<and> SerialException \<notin> set (take (k - 1) (rx pieces_session))
            \<and> (Inr (PyBytes [1, 2]) :: pyerr + pyval) = Inr PyNone)"
    by (rule exI[of _ 4]) (simp add: pieces_session_def less_Suc_eq eval_nat_numeral)
  then have 1: "serial_read pieces_session
      = Some (Inr (PyBytes [1, 2]), pieces_session\<lparr>rx := [Chunk [7]]\<rparr>)"
    using serial_read_endings[OF o, of "Inr (PyBytes [1, 2])" "pieces_session\<lparr>rx := [Chunk [7]]\<rparr>"]
    by blast
  have "\<exists>k\<le>length (rx broken_session).
       broken_session\<lparr>rx := [Chunk [2, 9]]\<rparr> = broken_session\<lparr>rx := drop k (rx broken_session)\<rparr>
       \<and> (\<forall>j<k. \<not> (received (take j (rx broken_session)) \<noteq> []
                   \<and> hd (received (take j (rx broken_session)))
                      = int (length (received (take j (rx broken_session))))))
       \<and> (SerialException \<notin> set (take k (rx broken_session))
            \<and> received (take k (rx broken_session)) \<noteq> []
            \<and> hd (received (take k (rx broken_session)))
                = int (length (received (take k (rx broken_session))))
            \<and> Inr PyNone = (Inr (PyBytes (butlast (tl (received (take k (rx broken_session)))))) :: pyerr + pyval)
          \<or> 0 < k \<and> rx broken_session ! (k - 1) = SerialException
            \<and> SerialException \<notin> set (take (k - 1) (rx broken_session))
            \<and> (Inr PyNone :: pyerr + pyval) = Inr PyNone)"
    by (rule exI[of _ 2]) (simp add: broken_session_def less_Suc_eq eval_nat_numeral)
  then have 2: "serial_read broken_session
      = Some (Inr PyNone, broken_session\<lparr>rx := [Chunk [2, 9]]\<rparr>)"
    using serial_read_endings[OF b, of "Inr PyNone" "broken_session\<lparr>rx := [Chunk [2, 9]]\<rparr>"]
    by blast
  from o b 1 2 show ?thesis by simp
qed

text \<open>
  The claim as stated fails: after the two bytes \<open>4, 1\<close> the next read raises and
  the call returns (\<open>None\<close>), although the first byte, 4, is not the number of
  bytes accumulated, 2.
\<close>

theorem serial_read_none_before_complete:
  "serial_read broken_session = Some (Inr PyNone, broken_session\<lparr>rx := [Chunk [2, 9]]\<rparr>)
   \<and> received (take 1 (rx broken_session)) = [4, 1]
   \<and> hd [4, 1 :: int] \<noteq> int (length [4, 1 :: int])"
  by (simp add: broken_session_def serial_read_def frame_pending_def)

text \<open>
  Claim C10. While \<open>self.serial\<close> is \<open>None\<close>, \<open>serial_write\<close> and \<open>serial_read\<close>
  raise \<open>RuntimeError\<close> and leave the session as it was: nothing is written
  (\<open>tx\<close>) and nothing is read (\<open>rx\<close>), whatever the bytes handed to \<open>serial_write\<close>.
\<close>

theorem serial_not_opened_raises:
  assumes "\<not> serial_opened s"
  shows "serial_write byte_list s = Some (Inl (RuntimeError ''Serial is not opened.''), s)
       \<and> serial_read s = Some (Inl (RuntimeError ''Serial is not opened.''), s)"
  using assms by (simp add: serial_write_def serial_read_def)

theorem serial_not_opened_raises_witness:
  "\<not> serial_opened closed_session
   \<and> serial_write [4, 0xFE, 6, 8] closed_session
       = Some (Inl (RuntimeError ''Serial is not opened.''), closed_session)
   \<and> serial_read closed_session
       = Some (Inl (RuntimeError ''Serial is not opened.''), closed_session)"
proof -
  have c: "\<not> serial_opened closed_session" by (simp add: closed_session_def)
  from c serial_not_opened_raises[OF c, of "[4, 0xFE, 6, 8]"] show ?thesis by simp
qed

section \<open>Chunked reads\<close>

lemma and_255_byte: "is_byte (x AND 0xFF)"
  by (simp add: is_byte_def AND_upper2' )

lemma read_frame_bytes:
  assumes "is_byte len" "\<forall>bs. is_byte (rcb4_checksum e bs)"
  shows "list_all is_byte (memory_read_aux_frame e addr len)"
  using assms by (simp add: memory_read_aux_frame_def and_255_byte Let_def) (simp add: is_byte_def)

lemma serial_write_bytes_iff:
  assumes "serial_opened s" "list_all is_byte f"
  shows "serial_write f s = Some (Inr (PyBytes p), s') \<longleftrightarrow>
    (\<exists>r. next_frame (rx s) = Some (p, r) \<and> s' = s\<lparr>tx := tx s @ [f], rx := r\<rparr>)"
  using assms
  by (auto simp: serial_write_def serial_read_reassemble next_frame_def
      split: option.splits pyval.splits)

lemma bytes_add_iff:
  "bytes_add a b = Inr (PyBytes v) \<longleftrightarrow> (\<exists>p q. a = PyBytes p \<and> b = PyBytes q \<and> v = p @ q)"
  by (cases a; cases b) auto

lemma lift_Some_Inr: "lift r s = Some (Inr y, s') \<longleftrightarrow> r = Inr y \<and> s' = s"
  by (cases r) (auto simp: ret_def throw_def)


lemma memory_read_aux_iff:
  assumes "serial_opened s" "is_byte len" "\<forall>bs. is_byte (rcb4_checksum e bs)"
  shows "memory_read_aux e addr len s = Some (Inr (PyBytes p), s') \<longleftrightarrow>
    (\<exists>r. next_frame (rx s) = Some (p, r)
        \<and> s' = s\<lparr>tx := tx s @ [memory_read_aux_frame e addr len], rx := r\<rparr>)"
  unfolding memory_read_aux_def
  by (rule serial_write_bytes_iff[OF assms(1) read_frame_bytes[OF assms(2,3)]])

text \<open>
  Claim C1, as amended. On an open port, with a checksum that is a byte and
  \<open>0 \<le> len < 750\<close>, \<open>memory_read e addr len\<close> returns bytes exactly when the port
  delivers the next one (\<open>len < 250\<close>), two (\<open>250 \<le> len < 500\<close>) or three
  (\<open>500 \<le> len\<close>) responses; the value is the concatenation of their payloads in the
  order of the requests; and the frames handed to \<open>serial.write\<close> are exactly these
  one, two or three read requests, for \<open>250\<close>, \<open>250\<close> and the remainder at the
  addresses \<open>addr\<close>, \<open>addr + 250\<close> and \<open>addr + 500\<close>. A read of exactly 250 bytes
  belongs to the second tier.
\<close>

theorem memory_read_requests:
  assumes opened: "serial_opened s"
    and checksum: "\<forall>bs. is_byte (rcb4_checksum e bs)"
    and len: "0 \<le> len" "len < 750"
  shows "(len < 250 \<longrightarrow>
           (memory_read e addr len s = Some (Inr (PyBytes v), s') \<longleftrightarrow>
             (\<exists>p1 r1. next_frame (rx s) = Some (p1, r1) \<and> v = p1
                \<and> s' = s\<lparr>tx := tx s @ [memory_read_aux_frame e addr len], rx := r1\<rparr>)))
       \<and> (250 \<le> len \<and> len < 500 \<longrightarrow>
           (memory_read e addr len s = Some (Inr (PyBytes v), s') \<longleftrightarrow>
             (\<exists>p1 r1 p2 r2. next_frame (rx s) = Some (p1, r1) \<and> next_frame r1 = Some (p2, r2)
                \<and> v = p1 @ p2
                \<and> s' = s\<lparr>tx := tx s @ [memory_read_aux_frame e addr 250,
                                         memory_read_aux_frame e (addr + 250) (len - 250)],
                          rx := r2\<rparr>)))
       \<and> (500 \<le> len \<longrightarrow>
           (memory_read e addr len s = Some (Inr (PyBytes v), s') \<longleftrightarrow>
             (\<exists>p1 r1 p2 r2 p3 r3. next_frame (rx s) = Some (p1, r1) \<and> next_frame r1 = Some (p2, r2)
                \<and> next_frame r2 = Some (p3, r3) \<and> v = p1 @ p2 @ p3
                \<and> s' = s\<lparr>tx := tx s @ [memory_read_aux_frame e addr 250,
                                         memory_read_aux_frame e (addr + 250) 250,
                                         memory_read_aux_frame e (addr + 500) (len - 500)],
                          rx := r3\<rparr>)))"
proof (intro conjI impI)
  assume "len < 250"
  then have b: "is_byte len" using len by (simp add: is_byte_def)
  show "memory_read e addr len s = Some (Inr (PyBytes v), s') \<longleftrightarrow>
             (\<exists>p1 r1. next_frame (rx s) = Some (p1, r1) \<and> v = p1
                \<and> s' = s\<lparr>tx := tx s @ [memory_read_aux_frame e addr len], rx := r1\<rparr>)"
    using \<open>len < 250\<close> memory_read_aux_iff[OF opened b checksum]
    by (auto simp: memory_read_def)
next
  assume t: "250 \<le> len \<and> len < 500"
  have b1: "is_byte 250" and b2: "is_byte (len - 250)" using t by (simp_all add: is_byte_def)
  have eq: "memory_read e addr len =
        bnd (memory_read_aux e addr 250) (\<lambda>a.
        bnd (memory_read_aux e (addr + 250) (len - 250)) (\<lambda>b.
        lift (bytes_add a b)))"
    using t by (simp add: memory_read_def)
  show "memory_read e addr len s = Some (Inr (PyBytes v), s') \<longleftrightarrow>
             (\<exists>p1 r1 p2 r2. next_frame (rx s) = Some (p1, r1) \<and> next_frame r1 = Some (p2, r2)
                \<and> v = p1 @ p2
                \<and> s' = s\<lparr>tx := tx s @ [memory_read_aux_frame e addr 250,
                                         memory_read_aux_frame e (addr + 250) (len - 250)],
                          rx := r2\<rparr>)"
    (is "?L \<longleftrightarrow> ?R")
  proof
    assume ?L
    then obtain a s1 b where
      1: "memory_read_aux e addr 250 s = Some (Inr a, s1)"
      and 2: "memory_read_aux e (addr + 250) (len - 250) s1 = Some (Inr b, s')"
      and 3: "bytes_add a b = Inr (PyBytes v)"
      unfolding eq by (auto simp: bnd_Some_Inr lift_Some_Inr)
    from 3 obtain p1 p2 where a: "a = PyBytes p1" and b: "b = PyBytes p2" and v: "v = p1 @ p2"
      by (auto simp: bytes_add_iff)
    from 1 a memory_read_aux_iff[OF opened b1 checksum] obtain r1 where
      r1: "next_frame (rx s) = Some (p1, r1)"
        "s1 = s\<lparr>tx := tx s @ [memory_read_aux_frame e addr 250], rx := r1\<rparr>" by blast
    have o1: "serial_opened s1" using r1(2) opened by simp
    from 2 b memory_read_aux_iff[OF o1 b2 checksum] obtain r2 where
      r2: "next_frame (rx s1) = Some (p2, r2)"
        "s' = s1\<lparr>tx := tx s1 @ [memory_read_aux_frame e (addr + 250) (len - 250)], rx := r2\<rparr>"
      by blast
    show ?R using r1 r2 v by auto
  next
    assume ?R
    then obtain p1 r1 p2 r2 where n1: "next_frame (rx s) = Some (p1, r1)"
      and n2: "next_frame r1 = Some (p2, r2)" and v: "v = p1 @ p2"
      and s': "s' = s\<lparr>tx := tx s @ [memory_read_aux_frame e addr 250,
                                         memory_read_aux_frame e (addr + 250) (len - 250)],
                          rx := r2\<rparr>" by blast
    define s1 where "s1 = s\<lparr>tx := tx s @ [memory_read_aux_frame e addr 250], rx := r1\<rparr>"
    have 1: "memory_read_aux e addr 250 s = Some (Inr (PyBytes p1), s1)"
      using memory_read_aux_iff[OF opened b1 checksum] n1 s1_def by blast
    have o1: "serial_opened s1" using s1_def opened by simp
    have "memory_read_aux e (addr + 250) (len - 250) s1 = Some (Inr (PyBytes p2), s')"
      using memory_read_aux_iff[OF o1 b2 checksum, of "addr + 250" p2 s'] n2 s1_def s' by simp
    with 1 show ?L unfolding eq by (simp add: bnd_def v ret_def)
  qed
next
  assume t: "500 \<le> len"
  have b1: "is_byte 250" and b3: "is_byte (len - 500)" using t len by (simp_all add: is_byte_def)
  have eq: "memory_read e addr len =
        bnd (memory_read_aux e addr 250) (\<lambda>a.
        bnd (memory_read_aux e (addr + 250) 250) (\<lambda>b.
        bnd (lift (bytes_add a b)) (\<lambda>ab.
        bnd (memory_read_aux e (addr + 500) (len - 500)) (\<lambda>c.
        lift (bytes_add ab c)))))"
    using t by (simp add: memory_read_def)
  show "memory_read e addr len s = Some (Inr (PyBytes v), s') \<longleftrightarrow>
             (\<exists>p1 r1 p2 r2 p3 r3. next_frame (rx s) = Some (p1, r1) \<and> next_frame r1 = Some (p2, r2)
                \<and> next_frame r2 = Some (p3, r3) \<and> v = p1 @ p2 @ p3
                \<and> s' = s\<lparr>tx := tx s @ [memory_read_aux_frame e addr 250,
                                         memory_read_aux_frame e (addr + 250) 250,
                                         memory_read_aux_frame e (addr + 500) (len - 500)],
                          rx := r3\<rparr>)"
    (is "?L \<longleftrightarrow> ?R")
  proof
    assume ?L
    then obtain a s1 b s2 ab c where
      1: "memory_read_aux e addr 250 s = Some (Inr a, s1)"
      and 2: "memory_read_aux e (addr + 250) 250 s1 = Some (Inr b, s2)"
      and 3: "bytes_add a b = Inr ab"
      and 4: "memory_read_aux e (addr + 500) (len - 500) s2 = Some (Inr c, s')"
      and 5: "bytes_add ab c = Inr (PyBytes v)"
      unfolding eq by (auto simp: bnd_Some_Inr lift_Some_Inr)
    from 5 obtain p12 p3 where ab: "ab = PyBytes p12" and c: "c = PyBytes p3" and v: "v = p12 @ p3"
      by (auto simp: bytes_add_iff)
    from 3 ab obtain p1 p2 where a: "a = PyBytes p1" and b: "b = PyBytes p2" and p12: "p12 = p1 @ p2"
      by (auto simp: bytes_add_iff)
    from 1 a memory_read_aux_iff[OF opened b1 checksum] obtain r1 where
      r1: "next_frame (rx s) = Some (p1, r1)"
        "s1 = s\<lparr>tx := tx s @ [memory_read_aux_frame e addr 250], rx := r1\<rparr>" by blast
    have o1: "serial_opened s1" using r1(2) opened by simp
    from 2 b memory_read_aux_iff[OF o1 b1 checksum] obtain r2 where
      r2: "next_frame (rx s1) = Some (p2, r2)"
        "s2 = s1\<lparr>tx := tx s1 @ [memory_read_aux_frame e (addr + 250) 250], rx := r2\<rparr>"
      by blast
    have o2: "serial_opened s2" using r2(2) o1 by simp
    from 4 c memory_read_aux_iff[OF o2 b3 checksum] obtain r3 where
      r3: "next_frame (rx s2) = Some (p3, r3)"
        "s' = s2\<lparr>tx := tx s2 @ [memory_read_aux_frame e (addr + 500) (len - 500)], rx := r3\<rparr>"
      by blast
    show ?R using r1 r2 r3 v p12 by auto
  next
    assume ?R
    then obtain p1 r1 p2 r2 p3 r3 where n1: "next_frame (rx s) = Some (p1, r1)"
      and n2: "next_frame r1 = Some (p2, r2)" and n3: "next_frame r2 = Some (p3, r3)"
      and v: "v = p1 @ p2 @ p3"
      and s': "s' = s\<lparr>tx := tx s @ [memory_read_aux_frame e addr 250,
                                         memory_read_aux_frame e (addr + 250) 250,
                                         memory_read_aux_frame e (addr + 500) (len - 500)],
                          rx := r3\<rparr>" by blast
    define s1 where "s1 = s\<lparr>tx := tx s @ [memory_read_aux_frame e addr 250], rx := r1\<rparr>"
    define s2 where "s2 = s1\<lparr>tx := tx s1 @ [memory_read_aux_frame e (addr + 250) 250], rx := r2\<rparr>"
    have 1: "memory_read_aux e addr 250 s = Some (Inr (PyBytes p1), s1)"
      using memory_read_aux_iff[OF opened b1 checksum] n1 s1_def by blast
    have o1: "serial_opened s1" using s1_def opened by simp
    have 2: "memory_read_aux e (addr + 250) 250 s1 = Some (Inr (PyBytes p2), s2)"
      using memory_read_aux_iff[OF o1 b1 checksum, of "addr + 250" p2 s2] n2 s1_def s2_def by simp
    have o2: "serial_opened s2" using s2_def o1 by simp
    have "memory_read_aux e (addr + 500) (len - 500) s2 = Some (Inr (PyBytes p3), s')"
      using memory_read_aux_iff[OF o2 b3 checksum, of "addr + 500" p3 s'] n3 s1_def s2_def s' by simp
    with 1 2 show ?L unfolding eq by (simp add: bnd_def v ret_def)
  qed
qed


lemma demo_checksum_byte: "\<forall>bs. is_byte (rcb4_checksum demo_env bs)"
  by (simp add: demo_env_def demo_checksum_def is_byte_def)

lemma next_frame_whole [simp]:
  "c \<noteq> [] \<Longrightarrow> hd c = int (length c) \<Longrightarrow> next_frame (Chunk c # evs) = Some (strip_frame c, evs)"
  by (cases evs) (auto simp: next_frame_def reassemble_Cons reassemble_Nil frame_complete_def)

lemma strip_whole [simp]: "strip_frame (n # p @ [c]) = p"
  by (simp add: strip_frame_def)

theorem memory_read_requests_witness:
  "(\<forall>bs. is_byte (rcb4_checksum demo_env bs))
   \<and> memory_read demo_env 0x1000 10 (open_session [Chunk (12 # replicate 10 7 @ [9])])
       = Some (Inr (PyBytes (replicate 10 7)),
               open_session [] \<lparr>tx := [memory_read_aux_frame demo_env 0x1000 10]\<rparr>)
   \<and> memory_read demo_env 0x1000 300
         (open_session [Chunk (252 # replicate 250 1 @ [9]), Chunk (52 # replicate 50 2 @ [9])])
       = Some (Inr (PyBytes (replicate 250 1 @ replicate 50 2)),
               open_session [] \<lparr>tx := [memory_read_aux_frame demo_env 0x1000 250,
                                       memory_read_aux_frame demo_env (0x1000 + 250) (300 - 250)]\<rparr>)
   \<and> memory_read demo_env 0x1000 600
         (open_session [Chunk (252 # replicate 250 1 @ [9]), Chunk (252 # replicate 250 2 @ [9]),
                        Chunk (102 # replicate 100 3 @ [9])])
       = Some (Inr (PyBytes (replicate 250 1 @ replicate 250 2 @ replicate 100 3)),
               open_session [] \<lparr>tx := [memory_read_aux_frame demo_env 0x1000 250,
                                       memory_read_aux_frame demo_env (0x1000 + 250) 250,
                                       memory_read_aux_frame demo_env (0x1000 + 500) (600 - 500)]\<rparr>)"
proof -
  have ck: "\<forall>bs. is_byte (rcb4_checksum demo_env bs)" by (rule demo_checksum_byte)
  have 1: "memory_read demo_env 0x1000 10 (open_session [Chunk (12 # replicate 10 7 @ [9])])
       = Some (Inr (PyBytes (replicate 10 7)),
               open_session [] \<lparr>tx := [memory_read_aux_frame demo_env 0x1000 10]\<rparr>)"
    using memory_read_requests[where e = demo_env and len = 10 and addr = "0x1000"
        and s = "open_session [Chunk (12 # replicate 10 7 @ [9])]"
        and v = "replicate 10 7"
        and s' = "open_session [] \<lparr>tx := [memory_read_aux_frame demo_env 0x1000 10]\<rparr>"] ck
    by (simp add: open_session_def)
  have 2: "memory_read demo_env 0x1000 300
         (open_session [Chunk (252 # replicate 250 1 @ [9]), Chunk (52 # replicate 50 2 @ [9])])
       = Some (Inr (PyBytes (replicate 250 1 @ replicate 50 2)),
               open_session [] \<lparr>tx := [memory_read_aux_frame demo_env 0x1000 250,
                                       memory_read_aux_frame demo_env (0x1000 + 250) (300 - 250)]\<rparr>)"
    using memory_read_requests[where e = demo_env and len = 300 and addr = "0x1000"
        and s = "open_session [Chunk (252 # replicate 250 1 @ [9]), Chunk (52 # replicate 50 2 @ [9])]"
        and v = "replicate 250 1 @ replicate 50 2"
        and s' = "open_session [] \<lparr>tx := [memory_read_aux_frame demo_env 0x1000 250,
                                       memory_read_aux_frame demo_env (0x1000 + 250) (300 - 250)]\<rparr>"] ck
    by (simp add: open_session_def)
  have 3: "memory_read demo_env 0x1000 600
         (open_session [Chunk (252 # replicate 250 1 @ [9]), Chunk (252 # replicate 250 2 @ [9]),
                        Chunk (102 # replicate 100 3 @ [9])])
       = Some (Inr (PyBytes (replicate 250 1 @ replicate 250 2 @ replicate 100 3)),
               open_session [] \<lparr>tx := [memory_read_aux_frame demo_env 0x1000 250,
                                       memory_read_aux_frame demo_env (0x1000 + 250) 250,
                                       memory_read_aux_frame demo_env (0x1000 + 500) (600 - 500)]\<rparr>)"
    using memory_read_requests[where e = demo_env and len = 600 and addr = "0x1000"
        and s = "open_session [Chunk (252 # replicate 250 1 @ [9]), Chunk (252 # replicate 250 2 @ [9]),
                        Chunk (102 # replicate 100 3 @ [9])]"
        and v = "replicate 250 1 @ replicate 250 2 @ replicate 100 3"
        and s' = "open_session [] \<lparr>tx := [memory_read_aux_frame demo_env 0x1000 250,
                                       memory_read_aux_frame demo_env (0x1000 + 250) 250,
                                       memory_read_aux_frame demo_env (0x1000 + 500) (600 - 500)]\<rparr>"] ck
    by (simp add: open_session_def)
  from ck 1 2 3 show ?thesis by blast
qed

text \<open>
  The claim as stated fails at \<open>len = 250\<close>: the code takes its first branch for
  \<open>len < 250\<close> only, so a read of 250 bytes sends two requests, the second for zero
  bytes.
\<close>

theorem memory_read_250_two_requests:
  "memory_read demo_env 0x1000 250 (open_session [Chunk (252 # replicate 250 7 @ [9]), Chunk [2, 0]])
     = Some (Inr (PyBytes (replicate 250 7)),
             open_session [] \<lparr>tx := [[11, 0xFB, 0, 0x10, 0, 0, 1, 250, 0, 0, 17],
                                     [11, 0xFB, 0xFA, 0x10, 0, 0, 1, 0, 0, 0, 17]]\<rparr>)"
  by (simp add: memory_read_def memory_read_aux_def memory_read_aux_frame_def serial_write_def
      serial_read_def open_session_def demo_env_def demo_checksum_def is_byte_def bnd_def
      frame_pending_def strip_frame_def ret_def)

section \<open>Single-field writes\<close>

lemma length_le_bytes [simp]: "length (le_bytes n x) = n"
  by (simp add: le_bytes_def)

lemma le_bytes_byte: "list_all is_byte (le_bytes n x)"
  by (simp add: le_bytes_def list_all_iff and_255_byte)

lemma le_bytes_2_0 [simp]: "le_bytes 2 0 = [0, 0]"
  by (simp add: le_bytes_def numeral_2_eq_2)

lemma copy_data_take:
  "n \<le> length xs \<Longrightarrow> list_all is_byte (take n xs) \<Longrightarrow> copy_data n xs = Inr (take n xs)"
  by (induction n xs rule: copy_data.induct) auto

lemma list_update_last: "length xs = n \<Longrightarrow> (xs @ [x])[n := y] = xs @ [y]"
  by auto

lemma memory_write_frame_ok:
  assumes "int len + 11 < 256" "0 \<le> addr" "addr < 2 ^ 32"
    and "len \<le> length data" "list_all is_byte (take len data)"
    and "is_byte (rcb4_checksum e ([11 + int len, 0xFC] @ le_bytes 4 addr @ [1, int len]
                   @ le_bytes 2 0 @ take len data))"
  shows "memory_write_frame e addr len data
     = Inr (vector_write_frame e addr 1 (int len) 0 (take len data))"
proof -
  define body where "body = [int len + 11, 0xFC] @ le_bytes 4 addr @ [1, int len]
                   @ le_bytes 2 0 @ take len data"
  have lb: "length body = 10 + len" using assms(4) by (simp add: body_def)
  have n: "is_byte (int len + 11)" using assms(1) by (simp add: is_byte_def)
  have a: "to_bytes4 addr = Inr (le_bytes 4 addr)" using assms(2,3) by (simp add: to_bytes4_def)
  have t: "take (nat (int len + 11 - 1)) (body @ [0]) = body" using lb by simp
  have u: "(body @ [0])[10 + len := c] = body @ [c]" for c
    using list_update_last[of body "10 + len" 0 c] lb by simp
  have ck: "is_byte (rcb4_checksum e body)" using assms(6) by (simp add: body_def add.commute)
  have l: "min (length data) len = len" using assms(4) by simp
  have "memory_write_frame e addr len data = Inr (body @ [rcb4_checksum e body])"
    unfolding memory_write_frame_def Let_def
    using n a copy_data_take[OF assms(4,5)] t u ck
    by (simp add: body_def del: le_bytes_2_0)
  moreover have "vector_write_frame e addr 1 (int len) 0 (take len data)
      = body @ [rcb4_checksum e body]"
    by (simp add: vector_write_frame_def body_def Let_def l add.commute del: le_bytes_2_0)
  ultimately show ?thesis by simp
qed


lemma throw_apply: "throw err s = Some (Inl err, s)"
  by (simp add: throw_def)

lemma ret_apply: "ret x s = Some (Inr x, s)"
  by (simp add: ret_def)

lemma serial_write_sent:
  "serial_opened s \<Longrightarrow> list_all is_byte f \<Longrightarrow> serial_write f s = serial_read (sent s f)"
  by (simp add: serial_write_def sent_def)

lemma vector_write_frame_bytes:
  assumes "int (length payload) + 11 < 256" "is_byte count" "is_byte element_size"
    and "list_all is_byte payload"
    and "is_byte (rcb4_checksum e ([11 + int (length payload), 0xFC] @ le_bytes 4 addr
           @ [count, element_size] @ le_bytes 2 stride @ payload))"
  shows "list_all is_byte (vector_write_frame e addr count element_size stride payload)"
  using assms le_bytes_byte[of 4 addr] le_bytes_byte[of 2 stride]
  by (simp add: vector_write_frame_def Let_def) (simp add: is_byte_def)

lemma memory_write_sends:
  assumes "serial_opened s" "int len + 11 < 256" "0 \<le> addr" "addr < 2 ^ 32"
    and "len \<le> length data" "list_all is_byte (take len data)"
    and "is_byte (rcb4_checksum e ([11 + int len, 0xFC] @ le_bytes 4 addr @ [1, int len]
                   @ le_bytes 2 0 @ take len data))"
  shows "memory_write e addr len data s
     = serial_read (sent s (vector_write_frame e addr 1 (int len) 0 (take len data)))"
proof -
  have l: "length (take len data) = len" using assms(5) by simp
  have b: "list_all is_byte (vector_write_frame e addr 1 (int len) 0 (take len data))"
    by (rule vector_write_frame_bytes) (use assms l in \<open>simp_all add: is_byte_def\<close>)
  show ?thesis
    unfolding memory_write_def memory_write_frame_ok[OF assms(2-7)]
    by (simp add: serial_write_sent[OF assms(1) b])
qed

lemma slice_assign0_length: "slot_size \<le> length (slice_assign0 slot_size byte_data)"
  by (simp add: slice_assign0_def)

lemma slice_assign0_bytes:
  "list_all is_byte byte_data \<Longrightarrow> list_all is_byte (take n (slice_assign0 slot_size byte_data))"
  by (auto simp: slice_assign0_def list_all_iff is_byte_def dest!: in_set_takeD in_set_dropD)

lemma slice_assign0_same: "length byte_data = slot_size \<Longrightarrow> slice_assign0 slot_size byte_data = byte_data"
  by (simp add: slice_assign0_def)




section \<open>What a call puts on the wire\<close>

lemma write_cls_alist_sends:
  assumes "fields_types cls slot_name = Some ft"
    and "armh7_elf_alist e (struct_name cls) = Some baseaddr"
    and "c_type_to_size e (c_type ft) = Inr slot_size"
    and "first_of_list vec = Inr v"
    and "pack_slot e (c_type ft) v = Inr byte_data" "list_all is_byte byte_data"
    and "int slot_size + 11 < 256"
    and "0 \<le> baseaddr + (idx * struct_size cls) + offset ft"
    and "baseaddr + (idx * struct_size cls) + offset ft < 2 ^ 32"
    and "\<forall>bs. is_byte (rcb4_checksum e bs)"
    and "serial_opened s"
  shows "write_cls_alist e cls idx slot_name vec s
     = serial_read (sent s (field_write_frame e cls idx baseaddr ft slot_size byte_data))"
proof -
  have w: "write_cls_alist e cls idx slot_name vec
      = memory_write e (baseaddr + (idx * struct_size cls) + offset ft) slot_size
          (slice_assign0 slot_size byte_data)"
    using assms by (simp add: write_cls_alist_def getitem_def field_addr_def)
  show ?thesis
    unfolding w field_write_frame_def
    by (rule memory_write_sends)
       (use assms slice_assign0_length slice_assign0_bytes in \<open>simp_all\<close>)
qed

lemma serial_read_keeps:
  "serial_read s = Some (r, s') \<Longrightarrow> tx s' = tx s \<and> serial_opened s' = serial_opened s"
  by (auto simp: serial_read_def split: if_splits option.splits prod.splits pyval.splits)

lemma serial_read_opened_Inr:
  "serial_opened s \<Longrightarrow> serial_read s = Some (r, s') \<Longrightarrow> \<exists>v. r = Inr v"
  by (auto simp: serial_read_def split: if_splits option.splits prod.splits pyval.splits)

lemma bnd_cases:
  assumes "bnd m f s = Some (r, s')"
  obtains (raised) err where "m s = Some (Inl err, s')" "r = Inl err"
    | (returned) x s1 where "m s = Some (Inr x, s1)" "f x s1 = Some (r, s')"
  using assms by (auto simp: bnd_def split: option.splits sum.splits prod.splits)

lemma serial_write_tx:
  assumes "serial_write f s = Some (r, s')"
  shows "(tx s' = tx s \<or> tx s' = tx s @ [f]) \<and> serial_opened s' = serial_opened s"
  using assms serial_read_keeps[of "s\<lparr>tx := tx s @ [f]\<rparr>" r s']
  by (auto simp: serial_write_def split: if_splits)

lemma read_frame_is_request: "is_read_request (memory_read_aux_frame e addr len)"
  by (simp add: memory_read_aux_frame_def is_read_request_def)

lemma memory_read_aux_tx:
  assumes "memory_read_aux e addr len s = Some (r, s')"
  shows "(\<exists>fs. tx s' = tx s @ fs \<and> list_all is_read_request fs)
       \<and> serial_opened s' = serial_opened s"
  using serial_write_tx[OF assms[unfolded memory_read_aux_def]] read_frame_is_request[of e addr len]
  by auto

lemma lift_keeps: "lift x s = Some (r, s') \<Longrightarrow> s' = s"
  by (cases x) (auto simp: throw_apply ret_apply)

lemma memory_read_tx:
  assumes "memory_read e addr len s = Some (r, s')"
  shows "(\<exists>fs. tx s' = tx s @ fs \<and> list_all is_read_request fs)
       \<and> serial_opened s' = serial_opened s"
proof -
  consider "len < 250" | "250 \<le> len" "len < 500" | "500 \<le> len" by linarith
  then show ?thesis
  proof cases
    case 1
    then show ?thesis using assms memory_read_aux_tx[of e addr len s r s']
      by (simp add: memory_read_def)
  next
    case 2
    then have eq: "memory_read e addr len =
        bnd (memory_read_aux e addr 250) (\<lambda>a.
        bnd (memory_read_aux e (addr + 250) (len - 250)) (\<lambda>b.
        lift (bytes_add a b)))"
      by (simp add: memory_read_def)
    from assms[unfolded eq] show ?thesis
    proof (cases rule: bnd_cases)
      case (raised err)
      then show ?thesis using memory_read_aux_tx by blast
    next
      case (returned a s1)
      note A = memory_read_aux_tx[OF returned(1)]
      from returned(2) show ?thesis
      proof (cases rule: bnd_cases)
        case (raised err)
        from memory_read_aux_tx[OF raised(1)] A show ?thesis by auto
      next
        case (returned b s2)
        from memory_read_aux_tx[OF returned(1)] lift_keeps[OF returned(2)] A
        show ?thesis by auto
      qed
    qed
  next
    case 3
    then have eq: "memory_read e addr len =
        bnd (memory_read_aux e addr 250) (\<lambda>a.
        bnd (memory_read_aux e (addr + 250) 250) (\<lambda>b.
        bnd (lift (bytes_add a b)) (\<lambda>ab.
        bnd (memory_read_aux e (addr + 500) (len - 500)) (\<lambda>c.
        lift (bytes_add ab c)))))"
      by (simp add: memory_read_def)
    from assms[unfolded eq] show ?thesis
    proof (cases rule: bnd_cases)
      case (raised err)
      then show ?thesis using memory_read_aux_tx by blast
    next
      case (returned a s1)
      note A = memory_read_aux_tx[OF returned(1)]
      from returned(2) show ?thesis
      proof (cases rule: bnd_cases)
        case (raised err)
        from memory_read_aux_tx[OF raised(1)] A show ?thesis by auto
      next
        case (returned b s2)
        note B = memory_read_aux_tx[OF returned(1)]
        from returned(2) show ?thesis
        proof (cases rule: bnd_cases)
          case (raised err)
          from lift_keeps[OF raised(1)] A B show ?thesis by auto
        next
          case (returned ab s3)
          note C = lift_keeps[OF returned(1)]
          from returned(2) show ?thesis
          proof (cases rule: bnd_cases)
            case (raised err)
            from memory_read_aux_tx[OF raised(1)] A B C show ?thesis by auto
          next
            case (returned c s4)
            from memory_read_aux_tx[OF returned(1)] lift_keeps[OF returned(2)] A B C
            show ?thesis by auto
          qed
        qed
      qed
    qed
  qed
qed

lemma memory_cstruct_tx:
  assumes "memory_cstruct e cls idx s = Some (r, s')"
  shows "(\<exists>fs. tx s' = tx s @ fs \<and> list_all is_read_request fs)
       \<and> serial_opened s' = serial_opened s"
  using assms unfolding memory_cstruct_def Let_def
proof (cases rule: bnd_cases)
  case (raised err)
  from lift_keeps[OF raised(1)] show ?thesis by simp
next
  case (returned addr s1)
  note A = lift_keeps[OF returned(1)]
  from returned(2) show ?thesis
  proof (cases rule: bnd_cases)
    case (raised err)
    from memory_read_tx[OF raised(1)] A show ?thesis by simp
  next
    case (returned buf s2)
    from memory_read_tx[OF returned(1)] lift_keeps[OF returned(2)] A show ?thesis by simp
  qed
qed


section \<open>Worm calibration\<close>

text \<open>
  Claim C6. Let the worm index be in range, \<open>magenc_offset\<close> be given and every other
  optional argument be \<open>None\<close>; let \<open>move_state\<close> and \<open>magenc_init\<close> be fields that
  \<open>write_cls_alist\<close> can write (as in claim C9). Then \<open>send_worm_calib_data\<close> runs as
  follows: it sends the single-field write of \<open>0\<close> to \<open>move_state\<close> and waits for the
  answer, sends the single-field write of \<open>magenc_offset mod 2^14\<close> to \<open>magenc_init\<close>
  and waits for the answer, and reads the record back. Whenever the call ends, the
  frames it has put on the wire are these two writes, in this order, followed by read
  requests only: no other field of any record is written.
\<close>

theorem send_worm_calib_data_magenc_only:
  assumes idx: "0 \<le> worm_idx" "worm_idx < max_sensor_num e"
    and base: "armh7_elf_alist e (struct_name (WormmoduleStruct e)) = Some baseaddr"
    and move_state: "fields_types (WormmoduleStruct e) ''move_state'' = Some ft1"
      "c_type_to_size e (c_type ft1) = Inr size1"
      "pack_slot e (c_type ft1) (PyInt 0) = Inr data1" "list_all is_byte data1"
      "int size1 + 11 < 256"
      "0 \<le> baseaddr + (worm_idx * struct_size (WormmoduleStruct e)) + offset ft1"
      "baseaddr + (worm_idx * struct_size (WormmoduleStruct e)) + offset ft1 < 2 ^ 32"
    and magenc_init: "fields_types (WormmoduleStruct e) ''magenc_init'' = Some ft2"
      "c_type_to_size e (c_type ft2) = Inr size2"
      "pack_slot e (c_type ft2) (PyInt (magenc_offset mod 2 ^ 14)) = Inr data2"
      "list_all is_byte data2" "int size2 + 11 < 256"
      "0 \<le> baseaddr + (worm_idx * struct_size (WormmoduleStruct e)) + offset ft2"
      "baseaddr + (worm_idx * struct_size (WormmoduleStruct e)) + offset ft2 < 2 ^ 32"
    and checksum: "\<forall>bs. is_byte (rcb4_checksum e bs)"
    and opened: "serial_opened s"
  shows "send_worm_calib_data e worm_idx None None None (Some magenc_offset) None None None None s
       = bnd (\<lambda>s. serial_read (sent s
                (field_write_frame e (WormmoduleStruct e) worm_idx baseaddr ft1 size1 data1))) (\<lambda>_.
         bnd (\<lambda>s. serial_read (sent s
                (field_write_frame e (WormmoduleStruct e) worm_idx baseaddr ft2 size2 data2))) (\<lambda>_.
         bnd (memory_cstruct e (WormmoduleStruct e) worm_idx) (\<lambda>worm.
         ret (Some worm)))) s
     \<and> (\<forall>r s'. send_worm_calib_data e worm_idx None None None (Some magenc_offset)
                  None None None None s = Some (r, s')
          \<longrightarrow> (\<exists>reads. tx s' = tx s
                   @ [field_write_frame e (WormmoduleStruct e) worm_idx baseaddr ft1 size1 data1,
                      field_write_frame e (WormmoduleStruct e) worm_idx baseaddr ft2 size2 data2]
                   @ reads
                 \<and> list_all is_read_request reads))"
proof -
  let ?W = "WormmoduleStruct e"
  let ?f1 = "field_write_frame e ?W worm_idx baseaddr ft1 size1 data1"
  let ?f2 = "field_write_frame e ?W worm_idx baseaddr ft2 size2 data2"
  let ?rest = "\<lambda>_::pyval. bnd (memory_cstruct e ?W worm_idx) (\<lambda>worm. ret (Some worm))"
  let ?spec = "bnd (\<lambda>s. serial_read (sent s ?f1)) (\<lambda>_.
               bnd (\<lambda>s. serial_read (sent s ?f2)) ?rest)"
  have w1: "write_cls_alist e ?W worm_idx ''move_state'' (PyList [PyInt 0]) t
      = serial_read (sent t ?f1)" if "serial_opened t" for t
    by (rule write_cls_alist_sends[OF move_state(1) base move_state(2) _ move_state(3-7) checksum that])
       simp
  have w2: "write_cls_alist e ?W worm_idx ''magenc_init'' (PyList [PyInt (magenc_offset mod 2 ^ 14)]) t
      = serial_read (sent t ?f2)" if "serial_opened t" for t
    by (rule write_cls_alist_sends[OF magenc_init(1) base magenc_init(2) _ magenc_init(3-7) checksum that])
       simp
  have eq0: "send_worm_calib_data e worm_idx None None None (Some magenc_offset) None None None None
      = bnd (write_cls_alist e ?W worm_idx ''move_state'' (PyList [PyInt 0])) (\<lambda>_.
        bnd (write_cls_alist e ?W worm_idx ''magenc_init'' (PyList [PyInt (magenc_offset mod 2 ^ 14)]))
          ?rest)"
    using idx by (simp add: send_worm_calib_data_def write_if_set_def)
  have step2: "bnd (write_cls_alist e ?W worm_idx ''magenc_init''
                  (PyList [PyInt (magenc_offset mod 2 ^ 14)])) ?rest t
      = bnd (\<lambda>s. serial_read (sent s ?f2)) ?rest t" if "serial_opened t" for t
    using w2[OF that] by (simp add: bnd_def)
  have eq: "send_worm_calib_data e worm_idx None None None (Some magenc_offset)
      None None None None s = ?spec s"
  proof (cases "serial_read (sent s ?f1)")
    case None
    then show ?thesis unfolding eq0 using w1[OF opened] by (simp add: bnd_def)
  next
    case (Some a)
    obtain r s1 where a: "a = (r, s1)" by (cases a)
    have o1: "serial_opened s1"
      using serial_read_keeps[of "sent s ?f1" r s1] Some a opened by (simp add: sent_def)
    show ?thesis unfolding eq0 using w1[OF opened] Some a step2[OF o1]
      by (cases r) (simp_all add: bnd_def)
  qed
  have txs: "\<exists>reads. tx s' = tx s @ [?f1, ?f2] @ reads \<and> list_all is_read_request reads"
    if "?spec s = Some (r, s')" for r s'
    using that
  proof (cases rule: bnd_cases)
    case (raised err)
    then show ?thesis
      using serial_read_opened_Inr[of "sent s ?f1" "Inl err" s'] opened by (simp add: sent_def)
  next
    case (returned x s1)
    from serial_read_keeps[OF returned(1)] opened
    have s1: "tx s1 = tx s @ [?f1]" "serial_opened s1" by (simp_all add: sent_def)
    from returned(2) show ?thesis
    proof (cases rule: bnd_cases)
      case (raised err)
      then show ?thesis
        using serial_read_opened_Inr[of "sent s1 ?f2" "Inl err" s'] s1 by (simp add: sent_def)
    next
      case (returned y s2)
      from serial_read_keeps[OF returned(1)] s1
      have s2: "tx s2 = tx s @ [?f1, ?f2]" by (simp add: sent_def)
      from returned(2) show ?thesis
      proof (cases rule: bnd_cases)
        case (raised err)
        from memory_cstruct_tx[OF raised(1)] s2 show ?thesis by auto
      next
        case (returned worm s3)
        from memory_cstruct_tx[OF returned(1)] returned(2) s2 show ?thesis
          by (auto simp: ret_apply)
      qed
    qed
  qed
  show ?thesis using eq txs by simp
qed


theorem send_worm_calib_data_magenc_only_witness:
  "\<exists>worm s'. send_worm_calib_data demo_env 2 None None None (Some 20000) None None None None
        calib_session = Some (Inr (Some worm), s')
     \<and> worm ''move_state'' = Some (PyInt 0) \<and> worm ''magenc_init'' = Some (PyInt 3616)
     \<and> tx s' = [[12, 0xFC, 0x1B, 4, 0, 0x24, 1, 1, 0, 0, 0, 77],
                [13, 0xFC, 0x1C, 4, 0, 0x24, 1, 2, 0, 0, 32, 14, 126],
                [11, 0xFB, 0x18, 4, 0, 0x24, 1, 12, 0, 0, 83]]"
proof -
  let ?ft1 = "\<lparr>c_type = ''uint8'', offset = 3\<rparr>"
  let ?ft2 = "\<lparr>c_type = ''uint16'', offset = 4\<rparr>"
  have eq: "send_worm_calib_data demo_env 2 None None None (Some 20000) None None None None
        calib_session
     = bnd (\<lambda>s. serial_read (sent s
                (field_write_frame demo_env (WormmoduleStruct demo_env) 2 0x24000400 ?ft1 1 [0]))) (\<lambda>_.
         bnd (\<lambda>s. serial_read (sent s
                (field_write_frame demo_env (WormmoduleStruct demo_env) 2 0x24000400 ?ft2 2 [32, 14]))) (\<lambda>_.
         bnd (memory_cstruct demo_env (WormmoduleStruct demo_env) 2) (\<lambda>worm.
         ret (Some worm)))) calib_session"
    by (rule send_worm_calib_data_magenc_only[THEN conjunct1])
       (simp_all add: demo_env_def demo_worm_def demo_size_def pack_slot_def le_bytes_def
          is_byte_def demo_checksum_def calib_session_def open_session_def upt_rec)
  show ?thesis
    unfolding eq
    by (simp add: demo_env_def demo_worm_def field_write_frame_def vector_write_frame_def
        slice_assign0_def le_bytes_def demo_checksum_def calib_session_def open_session_def
        sent_def serial_read_def frame_pending_def strip_frame_def bnd_def ret_def upt_rec
        memory_cstruct_def memory_read_def memory_read_aux_def memory_read_aux_frame_def
        serial_write_def is_byte_def getitem_def lift_def)
qed

section \<open>The guards that print and return\<close>

text \<open>
  Claim C4, as amended. When the frame size \<open>11 + tsize * vcnt\<close> that
  \<open>write_cstruct_slot_v\<close> computes exceeds 240, the call prints a message and returns
  \<open>None\<close>: nothing is sent and nothing is read, and no exception is raised. (The
  size is computed once the record count, the base address, the field and its type size
  have been looked up.)
\<close>

theorem write_cstruct_slot_v_too_large:
  assumes "c_vector e (struct_name cls) = Some vcnt"
    and "armh7_elf_alist e (struct_name cls) = Some addr"
    and "fields_types cls slot_name = Some ft"
    and "c_type_to_size e (c_type ft) = Inr tsize"
    and "11 + int tsize * int vcnt > 240"
  shows "write_cstruct_slot_v e cls slot_name vec s = Some (Inr PyNone, s)"
  using assms by (simp add: write_cstruct_slot_v_def getitem_def ret_apply)

theorem write_cstruct_slot_v_too_large_witness:
  "11 + int 8 * int 36 > 240
   \<and> write_cstruct_slot_v demo_env demo_servo ''error_angle'' (PyList (replicate 36 (PyFloat 0)))
        (open_session [Chunk [4, 0xFC, 6, 6]])
      = Some (Inr PyNone, open_session [Chunk [4, 0xFC, 6, 6]])"
  using write_cstruct_slot_v_too_large[where e = demo_env and cls = demo_servo
      and slot_name = "''error_angle''" and vcnt = 36 and addr = "0x24000100"
      and ft = "\<lparr>c_type = ''double'', offset = 8\<rparr>" and tsize = 8
      and vec = "PyList (replicate 36 (PyFloat 0))" and s = "open_session [Chunk [4, 0xFC, 6, 6]]"]
  by (simp add: demo_env_def demo_servo_def demo_size_def)

text \<open>
  The claim as stated fails: for 36 records and a field of 8 bytes (a frame of 299
  bytes) the call returns \<open>None\<close> instead of raising an error.
\<close>

theorem write_cstruct_slot_v_too_large_returns_none:
  "write_cstruct_slot_v demo_env demo_servo ''error_angle''
       (PyList (replicate 36 (PyFloat 0))) (open_session [])
     = Some (Inr PyNone, open_session [])"
  by (simp add: write_cstruct_slot_v_def getitem_def ret_apply demo_env_def demo_servo_def
      demo_size_def)

text \<open>
  Claim C8, as amended. Called with a worm index outside \<open>[0, max_sensor_num)\<close>,
  \<open>send_worm_angle_and_threshold\<close> and \<open>send_worm_calib_data\<close> print a message and
  return \<open>None\<close>: nothing is sent, nothing is read, and no exception reaches the
  caller. (\<open>read_worm_angle\<close> prints and then reads the record all the same; the
  amended claim says nothing about it.)
\<close>

theorem worm_index_out_of_range:
  assumes "\<not> (0 \<le> worm_idx \<and> worm_idx < max_sensor_num e)"
  shows "send_worm_angle_and_threshold e worm_idx angle threshold threshold_scale sign s
           = Some (Inr None, s)
       \<and> send_worm_calib_data e worm_idx servo_idx sensor_idx module_type magenc_offset
            upper_limit thleshold_scale timeout_time_scale gear_ratio s
           = Some (Inr None, s)"
  using assms
  by (simp add: send_worm_angle_and_threshold_def send_worm_calib_data_def ret_apply)

theorem worm_index_out_of_range_witness:
  "\<not> (0 \<le> (20::int) \<and> 20 < max_sensor_num demo_env)
   \<and> send_worm_angle_and_threshold demo_env 20 (PyFloat 0) (PyInt 30) (PyFloat 1) 1 (open_session [])
           = Some (Inr None, open_session [])
   \<and> send_worm_calib_data demo_env 20 None None None (Some 100) None None None None (open_session [])
           = Some (Inr None, open_session [])"
proof -
  have h: "\<not> (0 \<le> (20::int) \<and> 20 < max_sensor_num demo_env)" by (simp add: demo_env_def)
  from h worm_index_out_of_range[OF h] show ?thesis by blast
qed

text \<open>
  The claim as stated fails: with index \<open>-1\<close> and the default arguments,
  \<open>send_worm_calib_data\<close> returns \<open>None\<close> and raises nothing.
\<close>

theorem worm_index_out_of_range_no_error:
  "send_worm_calib_data demo_env (- 1) None None None (Some 100)
       (Some (PyFloat 69)) (Some (PyFloat 5)) (Some (PyFloat (5 / 4))) (Some (PyFloat 20))
       (open_session [])
     = Some (Inr None, open_session [])"
  by (simp add: send_worm_calib_data_def ret_apply demo_env_def)

section \<open>Function calls and slot-vector reads\<close>

text \<open>
  Claim C5 fails on the code. With one positional argument that has a length
  \<open>argc > 0\<close> (the list of arguments, as in \<open>cfunc_call('f', [1])\<close>), the loop's first
  step evaluates \<open>args[0].to_bytes\<close> on that list and raises \<open>AttributeError\<close>: no
  frame is built and nothing is sent. Only the call with an empty list gets through,
  and sends the frame of 8 bytes.
\<close>

theorem cfunc_call_with_arguments_raises:
  assumes "armh7_elf_alist e func_string = Some addr" "0 \<le> addr" "addr < 2 ^ 32"
    and "py_len a = Inr argc" "0 < argc" "8 + 4 * int argc < 256"
  shows "cfunc_call e func_string [a] s = Some (Inl AttributeError, s)"
proof -
  have "cfunc_arg [a] 0 = AttributeError"
    using assms(4) by (cases a) (simp_all add: cfunc_arg_def)
  then show ?thesis
    using assms
    by (simp add: cfunc_call_def cfunc_call_frame_def getitem_def to_bytes4_def is_byte_def
        throw_apply)
qed

theorem cfunc_call_with_arguments_raises_witness:
  "cfunc_call demo_env ''servo_idmode_scan_single'' [PyList [PyInt 1]]
       (open_session [Chunk [4, 0xFA, 6, 4]])
     = Some (Inl AttributeError, open_session [Chunk [4, 0xFA, 6, 4]])"
  using cfunc_call_with_arguments_raises[where e = demo_env
      and func_string = "''servo_idmode_scan_single''" and addr = "0x08002000"
      and a = "PyList [PyInt 1]" and argc = 1 and s = "open_session [Chunk [4, 0xFA, 6, 4]]"]
  by (simp add: demo_env_def)

lemma cfunc_call_no_arguments:
  "cfunc_call demo_env ''buzzer_init_sound'' [PyList []] (open_session [Chunk [4, 0xFA, 6, 4]])
     = Some (Inr (PyBytes [0xFA, 6]),
             open_session [] \<lparr>tx := [[8, 0xFA, 0x34, 0x12, 0x00, 0x08, 0, 80]]\<rparr>)"
  by (simp add: cfunc_call_def cfunc_call_frame_def getitem_def to_bytes4_def is_byte_def
      demo_env_def demo_checksum_def le_bytes_def upt_rec bnd_def ret_def lift_def
      serial_write_def serial_read_def open_session_def frame_pending_def strip_frame_def)

text \<open>
  Claim C2 fails on the code. The answer is always decoded as \<open>uint16\<close>: for the 36
  records of the example and a \<open>uint8\<close> field, the 36 bytes of the answer come back
  as 18 values. And only byte 8 of the frame receives the record size: for records
  of 300 bytes the stride bytes are \<open>44, 0\<close> (NumPy before 2.0) where little-endian
  300 is \<open>44, 1\<close>, or the store raises \<open>OverflowError\<close> (NumPy 2) and nothing is sent.
\<close>

lemma length_uint16_items: "length (uint16_items bs) = length bs div 2"
  by (induction bs rule: uint16_items.induct) auto

theorem read_cstruct_slot_v_uint8_field:
  "read_cstruct_slot_v demo_env demo_servo ''rotation''
         (open_session [Chunk (38 # replicate 36 1 @ [9])])
       = Some (Inr (uint16_items (replicate 36 1)), open_session []
                \<lparr>tx := [[11, 0xFB, 0x00, 0x01, 0x00, 0x24, 36, 1, 16, 0, 96]]\<rparr>)
   \<and> length (uint16_items (replicate 36 1)) = 18
   \<and> read_cstruct_slot_v_frame demo_env big_struct ''ref_angle''
       = Inr [11, 0xFB, 0x02, 0x01, 0x00, 0x24, 36, 2, 44, 0, 127]
   \<and> read_cstruct_slot_v_frame (demo_env\<lparr>numpy_wraps := False\<rparr>) big_struct ''ref_angle''
       = Inl OverflowError"
  by (simp add: read_cstruct_slot_v_def read_cstruct_slot_v_frame_def getitem_def np_uint8_def
      is_byte_def demo_env_def demo_servo_def demo_size_def demo_checksum_def le_bytes_def upt_rec
      bnd_def ret_def lift_def serial_write_def serial_read_def open_session_def
      frame_pending_def strip_frame_def length_uint16_items big_struct_def)

section \<open>Wheel discovery\<close>

lemma bnd_assoc: "bnd (bnd m f) g = bnd m (\<lambda>x. bnd (f x) g)"
  by (auto simp: bnd_def fun_eq_iff split: option.splits sum.splits prod.splits)

lemma copy_data_Inr:
  "copy_data n xs = Inr p \<Longrightarrow> n \<le> length xs \<and> list_all is_byte (take n xs) \<and> p = take n xs"
  by (induction n xs arbitrary: p rule: copy_data.induct) (auto split: if_splits sum.splits)

lemma memory_write_frame_Inr:
  assumes "memory_write_frame e addr len data = Inr f"
  shows "f = vector_write_frame e addr 1 (int len) 0 (take len data)"
proof -
  have n: "int len + 11 < 256"
    using assms by (auto simp: memory_write_frame_def Let_def is_byte_def split: if_splits)
  have a: "0 \<le> addr" "addr < 2 ^ 32"
    using assms
    by (auto simp: memory_write_frame_def Let_def to_bytes4_def split: if_splits sum.splits)
  obtain p where p: "copy_data len data = Inr p"
    using assms by (auto simp: memory_write_frame_def Let_def split: if_splits sum.splits)
  note c = copy_data_Inr[OF p]
  have ab: "to_bytes4 addr = Inr (le_bytes 4 addr)" using a by (simp add: to_bytes4_def)
  have nb: "is_byte (int len + 11)" using n by (simp add: is_byte_def)
  define body where "body = [int len + 11, 0xFC] @ le_bytes 4 addr @ [1, int len]
                   @ le_bytes 2 0 @ take len data"
  have lb: "length body = 10 + len" using c by (simp add: body_def)
  have t: "take (nat (int len + 11 - 1)) (body @ [0]) = body" using lb by simp
  have ck: "is_byte (rcb4_checksum e body)"
    using assms nb ab p c t
    by (auto simp: memory_write_frame_def Let_def body_def split: if_splits simp del: le_bytes_2_0)
  have "is_byte (rcb4_checksum e ([11 + int len, 0xFC] @ le_bytes 4 addr @ [1, int len]
                   @ le_bytes 2 0 @ take len data))"
    using ck by (simp add: body_def add.commute)
  from memory_write_frame_ok[OF n a _ _ this] c assms show ?thesis by simp
qed

lemma serial_write_Inr_tx:
  "serial_write f s = Some (Inr r, s') \<Longrightarrow> tx s' = tx s @ [f] \<and> serial_opened s' = serial_opened s"
  using serial_read_keeps[of "s\<lparr>tx := tx s @ [f]\<rparr>" "Inr r" s']
  by (auto simp: serial_write_def split: if_splits)

lemma memory_write_Inr_tx:
  assumes "memory_write e addr len data s = Some (Inr r, s')"
  shows "tx s' = tx s @ [vector_write_frame e addr 1 (int len) 0 (take len data)]
       \<and> serial_opened s' = serial_opened s"
  using assms memory_write_frame_Inr[of e addr len data] serial_write_Inr_tx
  by (auto simp: memory_write_def bnd_Some_Inr lift_Some_Inr)

lemma set_cstruct_slot_Inr_tx:
  assumes "armh7_elf_alist e (struct_name cls) = Some baseaddr"
    and "fields_types cls slot_name = Some ft"
    and "c_type_to_size e (c_type ft) = Inr slot_size"
    and "pack_slot_set e (c_type ft) v = Inr byte_data"
    and "set_cstruct_slot e cls idx slot_name v s = Some (Inr r, s')"
  shows "tx s' = tx s @ [field_write_frame e cls idx baseaddr ft slot_size byte_data]
       \<and> serial_opened s' = serial_opened s"
proof -
  have "set_cstruct_slot e cls idx slot_name v
      = memory_write e (baseaddr + (idx * struct_size cls) + offset ft) slot_size
          (slice_assign0 slot_size byte_data)"
    using assms(1-4) by (simp add: set_cstruct_slot_def getitem_def field_addr_def)
  with assms(5) memory_write_Inr_tx show ?thesis by (simp add: field_write_frame_def)
qed

lemma write_frame_not_read: "\<not> is_read_request (vector_write_frame e addr c es st p)"
  by (simp add: is_read_request_def vector_write_frame_def Let_def)


lemma getattr_Inr: "getattr obj name = Inr v \<longleftrightarrow> obj name = Some v"
  by (simp add: getattr_def split: option.splits)

lemma servo_flags_flag_set:
  "servo_flags servo = Inr (w, f) \<Longrightarrow> flag_set servo ''rotation'' = w \<and> flag_set servo ''feedback'' = f"
  by (auto simp: servo_flags_def flag_set_def getattr_def split: sum.splits option.splits)

lemma wheel_body_flags:
  "bnd (lift (getattr servo ''rotation'')) (\<lambda>rotation.
   bnd (lift (py_gt0 rotation)) (\<lambda>is_wheel.
   bnd (lift (getattr servo ''feedback'')) (\<lambda>feedback.
   bnd (lift (py_gt0 feedback)) (\<lambda>has_feedback. G is_wheel has_feedback))))
   = (case servo_flags servo of
        Inl err \<Rightarrow> throw err
      | Inr (w, f) \<Rightarrow> G w f)"
  by (auto simp: servo_flags_def split: sum.splits)

lemma set_cstruct_slot_sends:
  assumes "fields_types cls slot_name = Some ft"
    and "armh7_elf_alist e (struct_name cls) = Some baseaddr"
    and "c_type_to_size e (c_type ft) = Inr slot_size"
    and "pack_slot_set e (c_type ft) v = Inr byte_data" "list_all is_byte byte_data"
    and "int slot_size + 11 < 256"
    and "0 \<le> baseaddr + (idx * struct_size cls) + offset ft"
    and "baseaddr + (idx * struct_size cls) + offset ft < 2 ^ 32"
    and "\<forall>bs. is_byte (rcb4_checksum e bs)"
    and "serial_opened s"
  shows "set_cstruct_slot e cls idx slot_name v s
     = serial_read (sent s (field_write_frame e cls idx baseaddr ft slot_size byte_data))"
proof -
  have w: "set_cstruct_slot e cls idx slot_name v
      = memory_write e (baseaddr + (idx * struct_size cls) + offset ft) slot_size
          (slice_assign0 slot_size byte_data)"
    using assms by (simp add: set_cstruct_slot_def getitem_def field_addr_def)
  show ?thesis
    unfolding w field_write_frame_def
    by (rule memory_write_sends)
       (use assms slice_assign0_length slice_assign0_bytes in \<open>simp_all\<close>)
qed

lemma wheel_scan_is_log:
  assumes field: "fields_types (ServoStruct e) ''feedback'' = Some ft"
    and base: "armh7_elf_alist e (struct_name (ServoStruct e)) = Some baseaddr"
    and size: "c_type_to_size e (c_type ft) = Inr slot_size"
    and pack: "pack_slot_set e (c_type ft) (PyInt 0) = Inr byte_data" "list_all is_byte byte_data"
    and fits: "int slot_size + 11 < 256"
    and checksum: "\<forall>bs. is_byte (rcb4_checksum e bs)"
  shows "(\<forall>idx\<in>set ids. 0 \<le> baseaddr + (idx * struct_size (ServoStruct e)) + offset ft
                \<and> baseaddr + (idx * struct_size (ServoStruct e)) + offset ft < 2 ^ 32) \<Longrightarrow>
    serial_opened s \<Longrightarrow>
    wheel_scan e ids indices s
      = (case wheel_scan_log e
           (\<lambda>i. field_write_frame e (ServoStruct e) i baseaddr ft slot_size byte_data)
           ids indices seen s of
           None \<Rightarrow> None
         | Some ((r, seen'), s1) \<Rightarrow> Some (r, s1))"
proof (induction ids arbitrary: indices seen s)
  case Nil
  then show ?case by (simp add: ret_apply)
next
  case (Cons idx idxs)
  let ?clear = "\<lambda>i. field_write_frame e (ServoStruct e) i baseaddr ft slot_size byte_data"
  have range: "0 \<le> baseaddr + (idx * struct_size (ServoStruct e)) + offset ft"
      "baseaddr + (idx * struct_size (ServoStruct e)) + offset ft < 2 ^ 32"
    and ranges: "\<forall>idx\<in>set idxs. 0 \<le> baseaddr + (idx * struct_size (ServoStruct e)) + offset ft
                \<and> baseaddr + (idx * struct_size (ServoStruct e)) + offset ft < 2 ^ 32"
    using Cons.prems(1) by simp_all
  have unfold: "wheel_scan e (idx # idxs) indices
      = bnd (memory_cstruct e (ServoStruct e) idx) (\<lambda>servo.
          case servo_flags servo of
            Inl err \<Rightarrow> throw err
          | Inr (w, f) \<Rightarrow>
              bnd (if f then set_cstruct_slot e (ServoStruct e) idx ''feedback'' (PyInt 0)
                   else ret PyNone)
                (\<lambda>_. wheel_scan e idxs (if w then indices @ [idx] else indices)))"
    by (simp add: Let_def wheel_body_flags)
  show ?case
  proof (cases "memory_cstruct e (ServoStruct e) idx s")
    case None
    then show ?thesis unfolding unfold by (simp add: bnd_def)
  next
    case (Some a)
    obtain r0 s1 where a: "a = (r0, s1)" by (cases a)
    have o1: "serial_opened s1"
      using memory_cstruct_tx[of e "ServoStruct e" idx s r0 s1] Some a Cons.prems(2) by simp
    show ?thesis
    proof (cases r0)
      case (Inl err)
      then show ?thesis unfolding unfold using Some a by (simp add: bnd_def)
    next
      case (Inr servo)
      show ?thesis
      proof (cases "servo_flags servo")
        case (Inl err)
        then show ?thesis unfolding unfold using Some a Inr by (simp add: bnd_def throw_apply)
      next
        case flags: (Inr wf)
        obtain w f where wf: "wf = (w, f)" by (cases wf)
        let ?indices = "if w then indices @ [idx] else indices"
        note IH = Cons.IH[OF ranges, of _ ?indices "seen @ [(idx, servo)]"]
        show ?thesis
        proof (cases f)
          case False
          then show ?thesis unfolding unfold using Some a Inr flags wf IH[OF o1]
            by (simp add: bnd_def ret_apply)
        next
          case True
          have snd: "set_cstruct_slot e (ServoStruct e) idx ''feedback'' (PyInt 0) s1
              = serial_read (sent s1 (?clear idx))"
            by (rule set_cstruct_slot_sends[OF field base size pack fits range checksum o1])
          show ?thesis
          proof (cases "serial_read (sent s1 (?clear idx))")
            case None
            then show ?thesis unfolding unfold using Some a Inr flags wf True snd
              by (simp add: bnd_def)
          next
            case (Some b)
            obtain r2 s2 where b: "b = (r2, s2)" by (cases b)
            have o2: "serial_opened s2"
              using serial_read_keeps[of "sent s1 (?clear idx)" r2 s2] Some b o1
              by (simp add: sent_def)
            obtain x where x: "r2 = Inr x"
              using serial_read_opened_Inr[of "sent s1 (?clear idx)" r2 s2] Some b o1
              by (auto simp: sent_def)
            show ?thesis unfolding unfold
              using \<open>memory_cstruct e (ServoStruct e) idx s = Some a\<close> a Inr flags wf True snd
                Some b x IH[OF o2]
              by (simp add: bnd_def)
          qed
        qed
      qed
    qed
  qed
qed


lemma wheel_scan_log_run:
  assumes nr: "\<forall>i. \<not> is_read_request (clear i)"
  shows "wheel_scan_log e clear ids acc seen s = Some ((r, seen'), s1) \<Longrightarrow>
    \<exists>new fs. seen' = seen @ new \<and> map fst new = take (length new) ids
      \<and> tx s1 = tx s @ fs
      \<and> (\<forall>f\<in>set fs. is_read_request f
            \<or> (\<exists>(i, servo)\<in>set new. flag_set servo ''feedback'' \<and> f = clear i))
      \<and> (\<forall>indices. r = Inr indices \<longrightarrow>
            map fst new = ids
            \<and> indices = acc @ map fst (filter (\<lambda>(i, servo). flag_set servo ''rotation'') new)
            \<and> filter (\<lambda>f. \<not> is_read_request f) fs
                = map (\<lambda>(i, servo). clear i)
                    (filter (\<lambda>(i, servo). flag_set servo ''feedback'') new))"
proof (induction ids arbitrary: acc seen s)
  case Nil
  then show ?case by (intro exI[of _ "[]"]) auto
next
  case (Cons idx idxs)
  from Cons.prems obtain r0 s0 where rd: "memory_cstruct e (ServoStruct e) idx s = Some (r0, s0)"
    by (auto split: option.splits)
  from memory_cstruct_tx[OF rd] obtain fs1 where
    fs1: "tx s0 = tx s @ fs1" "list_all is_read_request fs1" by blast
  have fs1': "filter (\<lambda>f. \<not> is_read_request f) fs1 = []"
    using fs1(2) by (simp add: list_all_iff)
  have fs1'': "\<forall>f\<in>set fs1. is_read_request f" using fs1(2) by (simp add: list_all_iff)
  show ?case
  proof (cases r0)
    case (Inl err)
    with Cons.prems rd have "r = Inl err" "seen' = seen" "s1 = s0" by simp_all
    with fs1 fs1'' show ?thesis by (intro exI[of _ "[]"] exI[of _ fs1]) auto
  next
    case (Inr servo)
    show ?thesis
    proof (cases "servo_flags servo")
      case (Inl err)
      with Cons.prems rd Inr have e: "r = Inl err" "seen' = seen @ [(idx, servo)]" "s1 = s0"
        by simp_all
      with fs1 fs1'' show ?thesis by (intro exI[of _ "[(idx, servo)]"] exI[of _ fs1]) auto
    next
      case flags: (Inr wf)
      obtain w f where wf: "wf = (w, f)" by (cases wf)
      note fl = servo_flags_flag_set[OF flags[unfolded wf]]
      let ?mid = "if f then serial_read (sent s0 (clear idx)) else Some (Inr PyNone, s0)"
      from Cons.prems rd Inr flags wf obtain r2 s2 where mid: "?mid = Some (r2, s2)"
        by (auto split: option.splits)
      have tx2: "tx s2 = tx s0 @ (if f then [clear idx] else [])"
        using mid serial_read_keeps[of "sent s0 (clear idx)" r2 s2]
        by (auto simp: sent_def split: if_splits)
      show ?thesis
      proof (cases r2)
        case (Inl err)
        with Cons.prems rd Inr flags wf mid
        have e: "r = Inl err" "seen' = seen @ [(idx, servo)]" "s1 = s2" by simp_all
        show ?thesis
          using e fs1 fs1'' tx2 fl
          by (intro exI[of _ "[(idx, servo)]"] exI[of _ "fs1 @ (if f then [clear idx] else [])"])
             auto
      next
        case (Inr answer)
        with Cons.prems rd \<open>r0 = Inr servo\<close> flags wf mid
        have rest: "wheel_scan_log e clear idxs (if w then acc @ [idx] else acc)
            (seen @ [(idx, servo)]) s2 = Some ((r, seen'), s1)" by simp
        from Cons.IH[OF rest] obtain new fs where n:
          "seen' = (seen @ [(idx, servo)]) @ new" "map fst new = take (length new) idxs"
          "tx s1 = tx s2 @ fs"
          "\<forall>f\<in>set fs. is_read_request f
              \<or> (\<exists>(i, servo)\<in>set new. flag_set servo ''feedback'' \<and> f = clear i)"
          "\<forall>indices. r = Inr indices \<longrightarrow>
            map fst new = idxs
            \<and> indices = (if w then acc @ [idx] else acc)
                @ map fst (filter (\<lambda>(i, servo). flag_set servo ''rotation'') new)
            \<and> filter (\<lambda>f. \<not> is_read_request f) fs
                = map (\<lambda>(i, servo). clear i)
                    (filter (\<lambda>(i, servo). flag_set servo ''feedback'') new)"
          by blast
        show ?thesis
        proof (intro exI[of _ "(idx, servo) # new"]
            exI[of _ "fs1 @ (if f then [clear idx] else []) @ fs"] conjI allI impI)
          show "seen' = seen @ (idx, servo) # new" using n(1) by simp
          show "map fst ((idx, servo) # new) = take (length ((idx, servo) # new)) (idx # idxs)"
            using n(2) by simp
          show "tx s1 = tx s @ fs1 @ (if f then [clear idx] else []) @ fs"
            using n(3) tx2 fs1(1) by simp
          show "\<forall>f\<in>set (fs1 @ (if f then [clear idx] else []) @ fs). is_read_request f
              \<or> (\<exists>(i, servo)\<in>set ((idx, servo) # new). flag_set servo ''feedback'' \<and> f = clear i)"
            using n(4) fs1'' fl by auto
        next
          fix indices assume ri: "r = Inr indices"
          with n(5) have m: "map fst new = idxs"
            "indices = (if w then acc @ [idx] else acc)
                @ map fst (filter (\<lambda>(i, servo). flag_set servo ''rotation'') new)"
            "filter (\<lambda>f. \<not> is_read_request f) fs
                = map (\<lambda>(i, servo). clear i)
                    (filter (\<lambda>(i, servo). flag_set servo ''feedback'') new)" by simp_all
          show "map fst ((idx, servo) # new) = idx # idxs" using m(1) by simp
          show "indices = acc @ map fst (filter (\<lambda>(i, servo). flag_set servo ''rotation'')
              ((idx, servo) # new))" using m(2) fl by simp
          show "filter (\<lambda>f. \<not> is_read_request f) (fs1 @ (if f then [clear idx] else []) @ fs)
              = map (\<lambda>(i, servo). clear i)
                  (filter (\<lambda>(i, servo). flag_set servo ''feedback'') ((idx, servo) # new))"
            using m(3) fs1' fl nr by simp
        qed
      qed
    qed
  qed
qed


text \<open>
  Claim C7, as amended. Let \<open>feedback\<close> be a field of the servo records that
  \<open>set_cstruct_slot\<close> can write, and \<open>ids\<close> the previously discovered servos
  (\<open>servo_sorted_ids\<close>). Then \<open>search_wheel_sids\<close> is the scan \<open>wheel_scan_log\<close>:
  it ends, raises or never returns exactly as that scan does, and on return it stores
  the sorted indices as \<open>wheel_servo_sorted_ids\<close>. However the scan ends, the records
  \<open>seen\<close> are those of a first part of \<open>ids\<close>, and every frame sent is a read
  request or the single-field write of \<open>0\<close> to the \<open>feedback\<close> field of a scanned
  servo whose feedback flag is set (\<open>> 0\<close>), wheel or not: no other field is written,
  and nothing for a servo whose feedback flag is not set. When the scan returns, all
  of \<open>ids\<close> have been scanned, \<open>indices\<close> lists exactly the servos whose rotation
  flag is set, in scan order, and the writes sent are exactly the clears of the servos
  whose feedback flag is set, in scan order.
\<close>

theorem search_wheel_sids_every_ending:
  assumes ids: "servo_sorted_ids s = Some ids"
    and field: "fields_types (ServoStruct e) ''feedback'' = Some ft"
    and base: "armh7_elf_alist e (struct_name (ServoStruct e)) = Some baseaddr"
    and size: "c_type_to_size e (c_type ft) = Inr slot_size"
    and pack: "pack_slot_set e (c_type ft) (PyInt 0) = Inr byte_data" "list_all is_byte byte_data"
    and fits: "int slot_size + 11 < 256"
    and range: "\<forall>idx\<in>set ids. 0 \<le> baseaddr + (idx * struct_size (ServoStruct e)) + offset ft
                \<and> baseaddr + (idx * struct_size (ServoStruct e)) + offset ft < 2 ^ 32"
    and checksum: "\<forall>bs. is_byte (rcb4_checksum e bs)"
    and opened: "serial_opened s"
  shows "search_wheel_sids e s =
      (case wheel_scan_log e
          (\<lambda>i. field_write_frame e (ServoStruct e) i baseaddr ft slot_size byte_data) ids [] [] s of
         None \<Rightarrow> None
       | Some ((Inl err, seen), s1) \<Rightarrow> Some (Inl err, s1)
       | Some ((Inr indices, seen), s1) \<Rightarrow>
           Some (Inr indices, s1\<lparr>wheel_servo_sorted_ids := Some (sort indices)\<rparr>))
   \<and> (\<forall>r seen s1.
        wheel_scan_log e
          (\<lambda>i. field_write_frame e (ServoStruct e) i baseaddr ft slot_size byte_data) ids [] [] s
          = Some ((r, seen), s1) \<longrightarrow>
        (\<exists>fs. map fst seen = take (length seen) ids
          \<and> tx s1 = tx s @ fs
          \<and> (\<forall>f\<in>set fs. is_read_request f
                \<or> (\<exists>(i, servo)\<in>set seen. flag_set servo ''feedback''
                      \<and> f = field_write_frame e (ServoStruct e) i baseaddr ft slot_size byte_data))
          \<and> (\<forall>indices. r = Inr indices \<longrightarrow>
                map fst seen = ids
                \<and> indices = map fst (filter (\<lambda>(i, servo). flag_set servo ''rotation'') seen)
                \<and> filter (\<lambda>f. \<not> is_read_request f) fs
                    = map (\<lambda>(i, servo).
                             field_write_frame e (ServoStruct e) i baseaddr ft slot_size byte_data)
                        (filter (\<lambda>(i, servo). flag_set servo ''feedback'') seen))))"
proof (intro conjI allI impI)
  let ?clear = "\<lambda>i. field_write_frame e (ServoStruct e) i baseaddr ft slot_size byte_data"
  note w = wheel_scan_is_log[OF field base size pack fits checksum range opened, of "[]" "[]"]
  show "search_wheel_sids e s =
      (case wheel_scan_log e ?clear ids [] [] s of
         None \<Rightarrow> None
       | Some ((Inl err, seen), s1) \<Rightarrow> Some (Inl err, s1)
       | Some ((Inr indices, seen), s1) \<Rightarrow>
           Some (Inr indices, s1\<lparr>wheel_servo_sorted_ids := Some (sort indices)\<rparr>))"
    using ids w
    by (auto simp: search_wheel_sids_def bnd_def split: option.splits sum.splits prod.splits)
next
  fix r seen s1
  let ?clear = "\<lambda>i. field_write_frame e (ServoStruct e) i baseaddr ft slot_size byte_data"
  assume run: "wheel_scan_log e ?clear ids [] [] s = Some ((r, seen), s1)"
  have nr: "\<forall>i. \<not> is_read_request (?clear i)"
    by (simp add: field_write_frame_def write_frame_not_read)
  from wheel_scan_log_run[of ?clear, OF nr run]
  show "\<exists>fs. map fst seen = take (length seen) ids
          \<and> tx s1 = tx s @ fs
          \<and> (\<forall>f\<in>set fs. is_read_request f
                \<or> (\<exists>(i, servo)\<in>set seen. flag_set servo ''feedback'' \<and> f = ?clear i))
          \<and> (\<forall>indices. r = Inr indices \<longrightarrow>
                map fst seen = ids
                \<and> indices = map fst (filter (\<lambda>(i, servo). flag_set servo ''rotation'') seen)
                \<and> filter (\<lambda>f. \<not> is_read_request f) fs
                    = map (\<lambda>(i, servo). ?clear i)
                        (filter (\<lambda>(i, servo). flag_set servo ''feedback'') seen))"
    by auto
qed

lemmas demo_run_simps =
  demo_env_def demo_servo_def demo_size_def demo_checksum_def open_session_def
  search_wheel_sids_def memory_cstruct_def memory_read_def memory_read_aux_def
  memory_read_aux_frame_def serial_write_def serial_read_def frame_pending_def strip_frame_def
  set_cstruct_slot_def pack_slot_set_def memory_write_def memory_write_frame_def to_bytes4_def
  field_addr_def slice_assign0_def le_bytes_def upt_rec is_byte_def getitem_def getattr_def
  bnd_def ret_def lift_def throw_def Let_def

lemmas demo_log_simps =
  demo_env_def demo_servo_def demo_size_def demo_checksum_def open_session_def
  memory_cstruct_def memory_read_def memory_read_aux_def
  memory_read_aux_frame_def serial_write_def serial_read_def frame_pending_def strip_frame_def
  field_write_frame_def vector_write_frame_def sent_def servo_flags_def
  slice_assign0_def le_bytes_def upt_rec is_byte_def getitem_def getattr_def
  bnd_def ret_def lift_def throw_def Let_def

theorem search_wheel_sids_every_ending_witness:
  "search_wheel_sids demo_env wheel_session = Some (Inr [0], wheel_session_after)
   \<and> search_wheel_sids demo_env raising_session = Some (Inl TypeError, raising_session_after)"
proof -
  let ?ft = "\<lparr>c_type = ''uint8'', offset = 1\<rparr>"
  have base: "armh7_elf_alist demo_env (struct_name (ServoStruct demo_env)) = Some 0x24000100"
    by (simp add: demo_env_def demo_servo_def)
  have field: "fields_types (ServoStruct demo_env) ''feedback'' = Some ?ft"
    by (simp add: demo_env_def demo_servo_def)
  have size: "c_type_to_size demo_env (c_type ?ft) = Inr 1"
    by (simp add: demo_env_def demo_size_def)
  have pack: "pack_slot_set demo_env (c_type ?ft) (PyInt 0) = Inr [0]" "list_all is_byte [0]"
    by (simp_all add: pack_slot_set_def is_byte_def)
  have fits: "int 1 + 11 < 256" by simp
  have range: "\<forall>idx\<in>set [0, 1]. 0 \<le> 0x24000100 + (idx * struct_size (ServoStruct demo_env)) + offset ?ft
                \<and> 0x24000100 + (idx * struct_size (ServoStruct demo_env)) + offset ?ft < 2 ^ 32"
    by (simp add: demo_env_def demo_servo_def)
  have ids1: "servo_sorted_ids wheel_session = Some [0, 1]"
    and o1: "serial_opened wheel_session"
    by (simp_all add: wheel_session_def open_session_def)
  have ids2: "servo_sorted_ids raising_session = Some [0, 1]"
    and o2: "serial_opened raising_session"
    by (simp_all add: raising_session_def open_session_def)
  note t1 = search_wheel_sids_every_ending[OF ids1 field base size pack fits range
      demo_checksum_byte o1, THEN conjunct1]
  note t2 = search_wheel_sids_every_ending[OF ids2 field base size pack fits range
      demo_checksum_byte o2, THEN conjunct1]
  have 1: "search_wheel_sids demo_env wheel_session = Some (Inr [0], wheel_session_after)"
    unfolding t1 by (simp add: wheel_session_def wheel_session_after_def demo_log_simps)
  have 2: "search_wheel_sids demo_env raising_session = Some (Inl TypeError, raising_session_after)"
    unfolding t2 by (simp add: raising_session_def raising_session_after_def demo_log_simps)
  from 1 2 show ?thesis by simp
qed

text \<open>
  The claim as stated fails: servo 1 has no rotation flag, so it is not a wheel servo
  and the scan returns no index, yet the scan writes \<open>0\<close> to its \<open>feedback\<close>
  field (the second frame sent).
\<close>

theorem search_wheel_sids_clears_plain_servo:
  "search_wheel_sids demo_env plain_servo_session
     = Some (Inr [],
        open_session [] \<lparr>servo_sorted_ids := Some [1], wheel_servo_sorted_ids := Some [],
          tx := [[11, 0xFB, 0x10, 0x01, 0x00, 0x24, 1, 16, 0, 0, 76],
                 [12, 0xFC, 0x11, 0x01, 0x00, 0x24, 1, 1, 0, 0, 0, 64]]\<rparr>)"
  by (simp add: plain_servo_session_def demo_run_simps)

end
